theory Spec2Isabelle
  imports Complex_Main "HOL-Library.Word"
begin

section \<open>Values, dictionaries and exceptions\<close>

text \<open>
  The plugin \<^verbatim>\<open>plugins/rpa_plugin.py\<close> keeps two module-level dictionaries, \<^verbatim>\<open>tasks\<close> and
  \<^verbatim>\<open>results\<close>, and runs the steps of a task against a Playwright page. A step is a
  \<^verbatim>\<open>Dict[str, Any]\<close>; its values are JSON values.
\<close>

datatype jval =
    VNone
  | VBool bool
  | VInt int
  | VFloat rat
  | VStr string
  | VList "jval list"
  | VDict "(string \<times> jval) list"

text \<open>
  A Python dictionary keeps its keys in insertion order; \<^verbatim>\<open>d[k] = v\<close> replaces the value
  of a present key where it stands and appends an absent one.
\<close>

type_synonym 'v dict = "(string \<times> 'v) list"

fun dict_get :: "string \<Rightarrow> 'v dict \<Rightarrow> 'v option" where
  "dict_get k [] = None"
| "dict_get k ((k', v) # d) = (if k' = k then Some v else dict_get k d)"

definition dict_has :: "string \<Rightarrow> 'v dict \<Rightarrow> bool" where
  "dict_has k d = (dict_get k d \<noteq> None)"

fun dict_set :: "string \<Rightarrow> 'v \<Rightarrow> 'v dict \<Rightarrow> 'v dict" where
  "dict_set k v [] = [(k, v)]"
| "dict_set k v ((k', v') # d) = (if k' = k then (k, v) # d else (k', v') # dict_set k v d)"

definition dict_keys :: "'v dict \<Rightarrow> string list" where
  "dict_keys d = map fst d"

fun dict_without :: "string \<Rightarrow> 'v dict \<Rightarrow> 'v dict" where
  "dict_without k [] = []"
| "dict_without k ((k', v) # d) = (if k' = k then dict_without k d else (k', v) # dict_without k d)"

text \<open>The exceptions a run can meet; \<open>str_exn\<close> is Python's \<^verbatim>\<open>str(e)\<close>.\<close>

datatype exn =
    KeyError string
  | ValueError string
  | TypeError string
  | ProviderError string

fun str_exn :: "exn \<Rightarrow> string" where
  "str_exn (KeyError k) = CHR 0x27 # k @ [CHR 0x27]"
| "str_exn (ValueError m) = m"
| "str_exn (TypeError m) = m"
| "str_exn (ProviderError m) = m"

datatype http_exception = HTTPException nat string

text \<open>Python's \<^verbatim>\<open>str\<close> of a non-negative integer: its decimal digits.\<close>

definition digit_char :: "nat \<Rightarrow> char" where
  "digit_char d = ''0123456789'' ! d"

fun str_nat :: "nat \<Rightarrow> string" where
  "str_nat n = (if n < 10 then [digit_char n] else str_nat (n div 10) @ [digit_char (n mod 10)])"

declare str_nat.simps [simp del]

section \<open>Models of the request and response bodies\<close>

type_synonym step = "jval dict"

record task_config =
  name :: string
  description :: string
  target_url :: "string option"
  steps :: "step list"
  schedule :: "jval dict option"

record task_head =
  task_id :: string
  status :: string

record TaskStatus = task_head +
  progress :: "rat option"
  message :: "string option"

record TaskResult = task_head +
  result :: "step list option"
  error :: "string option"

text \<open>
  An entry of \<^verbatim>\<open>results\<close> is either \<^verbatim>\<open>{"result": {"steps": ...}}\<close> or \<^verbatim>\<open>{"error": ...}\<close>.
\<close>

datatype run_entry = Result "step list" | Error string

fun entry_error :: "run_entry \<Rightarrow> string option" where
  "entry_error (Result sts) = None"
| "entry_error (Error m) = Some m"

fun entry_result :: "run_entry \<Rightarrow> step list option" where
  "entry_result (Result sts) = Some sts"
| "entry_result (Error m) = None"

text \<open>
  The state of the process: the two dictionaries, the coroutines that
  \<^verbatim>\<open>asyncio.create_task\<close> has scheduled and that have not finished, and the world
  outside the process (browser and pages), of a type the plugin never inspects.
\<close>

record 'w state =
  tasks :: "task_config dict"
  results :: "run_entry dict"
  scheduled :: "string list"
  world :: 'w

definition init_state :: "'w \<Rightarrow> 'w state" where
  "init_state w = \<lparr>tasks = [], results = [], scheduled = [], world = w\<rparr>"

section \<open>The endpoints\<close>

definition create_task :: "task_config \<Rightarrow> 'w state \<Rightarrow> string dict \<times> 'w state" where
  "create_task cfg s =
     (let tid = ''task_'' @ str_nat (length (tasks s) + 1)
      in ([(''task_id'', tid), (''status'', ''created'')],
          s\<lparr>tasks := dict_set tid cfg (tasks s)\<rparr>))"

definition not_found :: "string \<Rightarrow> http_exception" where
  "not_found tid = HTTPException 404 (''Task with id '' @ tid @ '' not found'')"

definition get_task :: "string \<Rightarrow> 'w state \<Rightarrow> http_exception + string \<times> task_config" where
  "get_task tid s =
     (case dict_get tid (tasks s) of
        None \<Rightarrow> Inl (not_found tid)
      | Some task \<Rightarrow> Inr (tid, task))"

definition execute_task :: "string \<Rightarrow> 'w state \<Rightarrow> http_exception + TaskStatus \<times> 'w state" where
  "execute_task tid s =
     (if \<not> dict_has tid (tasks s) then Inl (not_found tid)
      else Inr (\<lparr>task_id = tid, status = ''running'', progress = Some 0,
                  message = Some ''Task execution started''\<rparr>,
                s\<lparr>scheduled := scheduled s @ [tid]\<rparr>))"

definition get_task_status :: "string \<Rightarrow> 'w state \<Rightarrow> http_exception + TaskStatus" where
  "get_task_status tid s =
     (if \<not> dict_has tid (tasks s) then Inl (not_found tid)
      else case dict_get tid (results s) of
        Some r \<Rightarrow>
          (let status_value = (if entry_error r = None then ''completed'' else ''failed'')
           in Inr \<lparr>task_id = tid, status = status_value, progress = Some 1,
                   message = (if status_value = ''completed''
                              then Some ''Task execution completed'' else entry_error r)\<rparr>)
      | None \<Rightarrow>
          Inr \<lparr>task_id = tid, status = ''running'', progress = Some (1 / 2),
                message = Some ''Task is still running''\<rparr>)"

definition get_task_result :: "string \<Rightarrow> 'w state \<Rightarrow> http_exception + TaskResult" where
  "get_task_result tid s =
     (if \<not> dict_has tid (tasks s) then Inl (not_found tid)
      else case dict_get tid (results s) of
        None \<Rightarrow> Inl (HTTPException 404
                  (''Results for task '' @ tid @ '' not found. Task may still be running.''))
      | Some r \<Rightarrow>
          Inr \<lparr>task_id = tid,
                status = (if entry_error r = None then ''completed'' else ''failed''),
                result = entry_result r, error = entry_error r\<rparr>)"

section \<open>The browser automation provider\<close>

text \<open>
  Every \<^verbatim>\<open>await\<close> of \<^verbatim>\<open>run_automation\<close> calls into Playwright or \<^verbatim>\<open>asyncio\<close>. Such a call
  either raises or returns, and changes the world outside the process either way.
\<close>

type_synonym ('a, 'w) io = "'w \<Rightarrow> (exn + 'a) \<times> 'w"

definition io_return :: "'a \<Rightarrow> ('a, 'w) io" where
  "io_return a w = (Inr a, w)"

definition io_raise :: "exn \<Rightarrow> ('a, 'w) io" where
  "io_raise e w = (Inl e, w)"

definition io_of :: "exn + 'a \<Rightarrow> ('a, 'w) io" where
  "io_of r w = (r, w)"

definition io_bind :: "('a, 'w) io \<Rightarrow> ('a \<Rightarrow> ('b, 'w) io) \<Rightarrow> ('b, 'w) io" where
  "io_bind m f w = (case m w of (Inl e, w') \<Rightarrow> (Inl e, w') | (Inr a, w') \<Rightarrow> f a w')"

type_synonym element = nat

record 'w provider =
  async_playwright :: "(unit, 'w) io"
  playwright_stop :: "(unit, 'w) io"
  chromium_launch :: "(unit, 'w) io"
  browser_new_context :: "(unit, 'w) io"
  context_new_page :: "(unit, 'w) io"
  page_goto :: "jval \<Rightarrow> (unit, 'w) io"
  page_click :: "jval \<Rightarrow> (unit, 'w) io"
  mouse_click :: "jval \<Rightarrow> jval \<Rightarrow> (unit, 'w) io"
  page_fill :: "jval \<Rightarrow> jval \<Rightarrow> (unit, 'w) io"
  page_select_option :: "jval \<Rightarrow> jval \<Rightarrow> (unit, 'w) io"
  asyncio_sleep :: "jval \<Rightarrow> (unit, 'w) io"
  page_wait_for_selector :: "jval \<Rightarrow> (unit, 'w) io"
  page_screenshot :: "(8 word list, 'w) io"
  page_query_selector :: "jval \<Rightarrow> (element option, 'w) io"
  page_xpath :: "jval \<Rightarrow> (element list, 'w) io"
  element_text_content :: "element \<Rightarrow> (string option, 'w) io"
  browser_close :: "(unit, 'w) io"

text \<open>\<^verbatim>\<open>base64.b64encode(screenshot).decode('utf-8')\<close>, the standard alphabet with padding.\<close>

definition b64_char :: "nat \<Rightarrow> char" where
  "b64_char n =
     ''ABCDEFGHIJKLMNOPQRSTUVWXYZabcdefghijklmnopqrstuvwxyz0123456789+/'' ! n"

fun b64encode :: "8 word list \<Rightarrow> string" where
  "b64encode [] = []"
| "b64encode [a] =
     [b64_char (unat a div 4), b64_char ((unat a mod 4) * 16), CHR ''='', CHR ''='']"
| "b64encode [a, b] =
     [b64_char (unat a div 4), b64_char ((unat a mod 4) * 16 + unat b div 16),
      b64_char ((unat b mod 16) * 4), CHR ''='']"
| "b64encode (a # b # c # bs) =
     [b64_char (unat a div 4), b64_char ((unat a mod 4) * 16 + unat b div 16),
      b64_char ((unat b mod 16) * 4 + unat c div 64), b64_char (unat c mod 64)]
     @ b64encode bs"

section \<open>One step\<close>

definition step_item :: "string \<Rightarrow> step \<Rightarrow> exn + jval" where
  "step_item k st = (case dict_get k st of None \<Rightarrow> Inl (KeyError k) | Some v \<Rightarrow> Inr v)"

definition step_get :: "string \<Rightarrow> step \<Rightarrow> jval" where
  "step_get k st = (case dict_get k st of None \<Rightarrow> VNone | Some v \<Rightarrow> v)"

text \<open>
  \<^verbatim>\<open>x, y = step["coordinates"]\<close>: a list, a string or a dictionary of two items unpacks (a
  dictionary into its keys); another length raises \<^verbatim>\<open>ValueError\<close>, a value that is not
  iterable raises \<^verbatim>\<open>TypeError\<close>.
\<close>

definition unpack_error :: "nat \<Rightarrow> exn" where
  "unpack_error n =
     (if n < 2
      then ValueError (''not enough values to unpack (expected 2, got '' @ str_nat n @ '')'')
      else ValueError ''too many values to unpack (expected 2)'')"

fun unpack2 :: "jval \<Rightarrow> exn + jval \<times> jval" where
  "unpack2 (VList vs) =
     (case vs of [x, y] \<Rightarrow> Inr (x, y) | _ \<Rightarrow> Inl (unpack_error (length vs)))"
| "unpack2 (VStr cs) =
     (case cs of [x, y] \<Rightarrow> Inr (VStr [x], VStr [y]) | _ \<Rightarrow> Inl (unpack_error (length cs)))"
| "unpack2 (VDict kvs) =
     (case kvs of [(x, _), (y, _)] \<Rightarrow> Inr (VStr x, VStr y)
      | _ \<Rightarrow> Inl (unpack_error (length kvs)))"
| "unpack2 VNone = Inl (TypeError ''cannot unpack non-iterable NoneType object'')"
| "unpack2 (VBool b) = Inl (TypeError ''cannot unpack non-iterable bool object'')"
| "unpack2 (VInt i) = Inl (TypeError ''cannot unpack non-iterable int object'')"
| "unpack2 (VFloat r) = Inl (TypeError ''cannot unpack non-iterable float object'')"

definition text_value :: "string option \<Rightarrow> jval" where
  "text_value t = (case t of None \<Rightarrow> VNone | Some cs \<Rightarrow> VStr cs)"

text \<open>The inner loop of the \<^verbatim>\<open>xpath\<close> branch: the text of every element, in order.\<close>

fun text_contents :: "'w provider \<Rightarrow> element list \<Rightarrow> (jval list, 'w) io" where
  "text_contents P [] = io_return []"
| "text_contents P (el # els) =
     io_bind (element_text_content P el) (\<lambda>text.
     io_bind (text_contents P els) (\<lambda>texts.
     io_return (text_value text # texts)))"

text \<open>
  The body of the \<^verbatim>\<open>for step in task["steps"]\<close> loop. It returns the step as the loop body
  leaves it: \<^verbatim>\<open>step["result"] = ...\<close> writes into the dictionary stored in the task. The
  assignment is the last statement of its branch, so a step that raises is left as it was.
\<close>

definition exec_step :: "'w provider \<Rightarrow> step \<Rightarrow> (step, 'w) io" where
  "exec_step P st =
     (let step_type = dict_get ''type'' st in
      if step_type = Some (VStr ''navigate'') then
        io_bind (io_of (step_item ''url'' st)) (\<lambda>url.
        io_bind (page_goto P url) (\<lambda>_. io_return st))
      else if step_type = Some (VStr ''click'') then
        (if dict_has ''selector'' st then
           io_bind (io_of (step_item ''selector'' st)) (\<lambda>sel.
           io_bind (page_click P sel) (\<lambda>_. io_return st))
         else if dict_has ''coordinates'' st then
           io_bind (io_of (step_item ''coordinates'' st)) (\<lambda>c.
           io_bind (io_of (unpack2 c)) (\<lambda>(x, y).
           io_bind (mouse_click P x y) (\<lambda>_. io_return st)))
         else io_return st)
      else if step_type = Some (VStr ''type'') then
        io_bind (io_of (step_item ''selector'' st)) (\<lambda>sel.
        io_bind (io_of (step_item ''text'' st)) (\<lambda>text.
        io_bind (page_fill P sel text) (\<lambda>_. io_return st)))
      else if step_type = Some (VStr ''select'') then
        io_bind (io_of (step_item ''selector'' st)) (\<lambda>sel.
        io_bind (page_select_option P sel (step_get ''value'' st)) (\<lambda>_. io_return st))
      else if step_type = Some (VStr ''wait'') then
        (if dict_has ''time'' st then
           io_bind (io_of (step_item ''time'' st)) (\<lambda>t.
           io_bind (asyncio_sleep P t) (\<lambda>_. io_return st))
         else if dict_has ''selector'' st then
           io_bind (io_of (step_item ''selector'' st)) (\<lambda>sel.
           io_bind (page_wait_for_selector P sel) (\<lambda>_. io_return st))
         else io_return st)
      else if step_type = Some (VStr ''screenshot'') then
        io_bind (page_screenshot P) (\<lambda>screenshot.
        io_return (dict_set ''result''
          (VDict [(''screenshot'', VStr (b64encode screenshot))]) st))
      else if step_type = Some (VStr ''extract'') then
        (if dict_has ''selector'' st then
           io_bind (io_of (step_item ''selector'' st)) (\<lambda>sel.
           io_bind (page_query_selector P sel) (\<lambda>element.
           case element of
             Some el \<Rightarrow>
               io_bind (element_text_content P el) (\<lambda>text.
               io_return (dict_set ''result'' (VDict [(''text'', text_value text)]) st))
           | None \<Rightarrow> io_return st))
         else if dict_has ''xpath'' st then
           io_bind (io_of (step_item ''xpath'' st)) (\<lambda>xp.
           io_bind (page_xpath P xp) (\<lambda>elements.
           if elements \<noteq> [] then
             io_bind (text_contents P elements) (\<lambda>texts.
             io_return (dict_set ''result'' (VDict [(''texts'', VList texts)]) st))
           else io_return st))
         else io_return st)
      else io_return st)"

section \<open>One run\<close>

text \<open>
  The loop over the steps. An exception leaves the loop at once; the steps before it keep
  what they wrote into their dictionaries, the raising step and those after it are as
  they were. The function returns the exception, if any, and the list of steps as the
  loop leaves it.
\<close>

fun run_steps :: "'w provider \<Rightarrow> step list \<Rightarrow> 'w \<Rightarrow> (exn option \<times> step list) \<times> 'w" where
  "run_steps P [] w = ((None, []), w)"
| "run_steps P (st # sts) w =
     (case exec_step P st w of
        (Inl e, w') \<Rightarrow> ((Some e, st # sts), w')
      | (Inr st', w') \<Rightarrow>
          (case run_steps P sts w' of ((r, sts'), w'') \<Rightarrow> ((r, st' # sts'), w'')))"

text \<open>
  Launching the browser, opening a context and a page, and the first navigation, which
  happens when \<^verbatim>\<open>task.get("target_url")\<close> is truthy: neither \<^verbatim>\<open>None\<close> nor empty.
\<close>

definition session_setup :: "'w provider \<Rightarrow> task_config \<Rightarrow> (unit, 'w) io" where
  "session_setup P task =
     io_bind (chromium_launch P) (\<lambda>_.
     io_bind (browser_new_context P) (\<lambda>_.
     io_bind (context_new_page P) (\<lambda>_.
     (case target_url task of
        None \<Rightarrow> io_return ()
      | Some u \<Rightarrow> if u = [] then io_return () else page_goto P (VStr u)))))"

text \<open>
  The body of \<^verbatim>\<open>async with pw.async_playwright()\<close>: set-up, the steps, closing the browser,
  and the entry written to \<^verbatim>\<open>results\<close>. The list of steps belongs to the stored task, so
  what the steps wrote is in \<^verbatim>\<open>tasks\<close> whether or not the run goes on. The entry of
  \<^verbatim>\<open>results\<close> holds that same list; here it holds its value when the run ends, and the
  next run of the task replaces the entry.
\<close>

definition with_body ::
  "'w provider \<Rightarrow> string \<Rightarrow> task_config \<Rightarrow> 'w state \<Rightarrow> exn option \<times> 'w state" where
  "with_body P tid task s =
     (case session_setup P task (world s) of
        (Inl e, w1) \<Rightarrow> (Some e, s\<lparr>world := w1\<rparr>)
      | (Inr _, w1) \<Rightarrow>
          (case run_steps P (steps task) w1 of ((r, sts), w2) \<Rightarrow>
             (let s2 = s\<lparr>tasks := dict_set tid (task\<lparr>steps := sts\<rparr>) (tasks s), world := w2\<rparr>
              in case r of
                Some e \<Rightarrow> (Some e, s2)
              | None \<Rightarrow>
                  (case browser_close P w2 of
                     (Inl e, w3) \<Rightarrow> (Some e, s2\<lparr>world := w3\<rparr>)
                   | (Inr _, w3) \<Rightarrow>
                       (None, s2\<lparr>results := dict_set tid (Result sts) (results s2),
                                  world := w3\<rparr>)))))"

text \<open>
  The \<^verbatim>\<open>try\<close> block: entering the context manager, its body, and leaving it, which stops
  Playwright on every path. An exception raised while leaving replaces the one of the
  body. The result is the exception that reaches the \<^verbatim>\<open>except\<close> clause, if any.
\<close>

definition run_try ::
  "'w provider \<Rightarrow> string \<Rightarrow> task_config \<Rightarrow> 'w state \<Rightarrow> exn option \<times> 'w state" where
  "run_try P tid task s =
     (case async_playwright P (world s) of
        (Inl e, w0) \<Rightarrow> (Some e, s\<lparr>world := w0\<rparr>)
      | (Inr _, w0) \<Rightarrow>
          (case with_body P tid task (s\<lparr>world := w0\<rparr>) of (r, s1) \<Rightarrow>
             (case playwright_stop P (world s1) of
                (Inl e', w') \<Rightarrow> (Some e', s1\<lparr>world := w'\<rparr>)
              | (Inr _, w') \<Rightarrow> (r, s1\<lparr>world := w'\<rparr>))))"

text \<open>
  \<^verbatim>\<open>run_automation\<close>: the lookup \<^verbatim>\<open>tasks[task_id]\<close> stands before the \<^verbatim>\<open>try\<close>, so its
  \<^verbatim>\<open>KeyError\<close> is the one exception that leaves the function.
\<close>

definition run_automation :: "'w provider \<Rightarrow> string \<Rightarrow> 'w state \<Rightarrow> exn + 'w state" where
  "run_automation P tid s =
     (case dict_get tid (tasks s) of
        None \<Rightarrow> Inl (KeyError tid)
      | Some task \<Rightarrow>
          (case run_try P tid task s of
             (None, s') \<Rightarrow> Inr s'
           | (Some e, s') \<Rightarrow>
               Inr (s'\<lparr>results := dict_set tid (Error (str_exn e)) (results s')\<rparr>)))"

section \<open>Histories of the process\<close>

text \<open>
  What happens to the state over time: a task is created, an execution is requested, or
  one of the scheduled coroutines runs. A run writes its entry of \<^verbatim>\<open>results\<close> in its last
  segment, so a request served while the run is suspended sees \<^verbatim>\<open>results\<close> without it;
  here the run is one event, at the moment it ends. That is the course of a run which no
  other run of its task overlaps; runs that overlap have a section of their own below.
\<close>

datatype event = CreateTask task_config | ExecuteTask string | RunEnds nat

definition apply_event :: "'w provider \<Rightarrow> event \<Rightarrow> 'w state \<Rightarrow> 'w state" where
  "apply_event P ev s =
     (case ev of
        CreateTask cfg \<Rightarrow> snd (create_task cfg s)
      | ExecuteTask tid \<Rightarrow>
          (case execute_task tid s of Inl _ \<Rightarrow> s | Inr (_, s') \<Rightarrow> s')
      | RunEnds i \<Rightarrow>
          (if i < length (scheduled s) then
             (let tid = scheduled s ! i;
                  s0 = s\<lparr>scheduled := take i (scheduled s) @ drop (Suc i) (scheduled s)\<rparr>
              in case run_automation P tid s0 of Inl _ \<Rightarrow> s0 | Inr s' \<Rightarrow> s')
           else s))"

fun run_events :: "'w provider \<Rightarrow> event list \<Rightarrow> 'w state \<Rightarrow> 'w state" where
  "run_events P [] s = s"
| "run_events P (ev # evs) s = run_events P evs (apply_event P ev s)"

section \<open>A provider and tasks to run the model on\<close>

text \<open>
  A page on which \<^verbatim>\<open>#missing\<close> cannot be clicked, \<^verbatim>\<open>#none\<close> matches no element and
  \<^verbatim>\<open>//li\<close> matches two; the world counts the calls made.
\<close>

definition tick :: "'a \<Rightarrow> ('a, nat) io" where
  "tick a w = (Inr a, Suc w)"

definition demo_provider :: "nat provider" where
  "demo_provider =
     \<lparr>async_playwright = tick (), playwright_stop = tick (), chromium_launch = tick (),
      browser_new_context = tick (), context_new_page = tick (),
      page_goto = (\<lambda>_. tick ()),
      page_click = (\<lambda>sel w. if sel = VStr ''#missing''
                     then (Inl (ProviderError ''Timeout 30000ms exceeded.''), Suc w)
                     else tick () w),
      mouse_click = (\<lambda>_ _. tick ()),
      page_fill = (\<lambda>_ _. tick ()),
      page_select_option = (\<lambda>_ _. tick ()),
      asyncio_sleep = (\<lambda>_. tick ()),
      page_wait_for_selector = (\<lambda>_. tick ()),
      page_screenshot = tick [0x50, 0x4E, 0x47],
      page_query_selector = (\<lambda>sel. tick (if sel = VStr ''#none'' then None else Some 7)),
      page_xpath = (\<lambda>xp. tick (if xp = VStr ''//li'' then [1, 2] else [])),
      element_text_content = (\<lambda>el. tick (Some ''hello'')),
      browser_close = tick ()\<rparr>"

definition close_fails_provider :: "nat provider" where
  "close_fails_provider =
     demo_provider\<lparr>browser_close := (\<lambda>w. (Inl (ProviderError ''Target closed''), Suc w))\<rparr>"

text \<open>Providers without a driver and without a browser to launch.\<close>

definition no_driver_provider :: "nat provider" where
  "no_driver_provider =
     demo_provider\<lparr>async_playwright :=
       (\<lambda>w. (Inl (ProviderError ''Connection closed''), Suc w))\<rparr>"

definition no_browser_provider :: "nat provider" where
  "no_browser_provider =
     demo_provider\<lparr>chromium_launch :=
       (\<lambda>w. (Inl (ProviderError ''Executable does not exist''), Suc w))\<rparr>"

text \<open>A page on which a selector matches at first and matches nothing later on.\<close>

definition changing_provider :: "nat provider" where
  "changing_provider =
     demo_provider\<lparr>page_query_selector :=
       (\<lambda>sel w. (Inr (if w < 10 then Some 7 else None), Suc w))\<rparr>"

definition shot_step :: step where
  "shot_step = [(''type'', VStr ''screenshot'')]"

definition click_missing_step :: step where
  "click_missing_step = [(''type'', VStr ''click''), (''selector'', VStr ''#missing'')]"

definition extract_none_step :: step where
  "extract_none_step = [(''type'', VStr ''extract''), (''selector'', VStr ''#none'')]"

definition extract_step :: step where
  "extract_step = [(''type'', VStr ''extract''), (''selector'', VStr ''h1'')]"

definition demo_task :: "step list \<Rightarrow> task_config" where
  "demo_task sts =
     \<lparr>name = ''login'', description = ''demo'', target_url = Some ''http://example.test/'',
      steps = sts, schedule = None\<rparr>"

text \<open>The state the demo provider reaches from the empty process along a history.\<close>

definition after :: "event list \<Rightarrow> nat state" where
  "after evs = run_events demo_provider evs (init_state 0)"

section \<open>Notions the properties are stated with\<close>

text \<open>
  The keys of \<^verbatim>\<open>tasks\<close> are \<^verbatim>\<open>task_1\<close>, ..., \<^verbatim>\<open>task_n\<close> in this order, and \<^verbatim>\<open>results\<close> has
  entries for stored tasks only. Every state of a history has this form.
\<close>

definition task_ids :: "nat \<Rightarrow> string list" where
  "task_ids n = map (\<lambda>i. ''task_'' @ str_nat (Suc i)) [0..<n]"

definition registry_ok :: "'w state \<Rightarrow> bool" where
  "registry_ok s =
     (dict_keys (tasks s) = task_ids (length (tasks s)) \<and>
      set (dict_keys (results s)) \<subseteq> set (dict_keys (tasks s)))"

text \<open>The identifier a \<^verbatim>\<open>create_task\<close> call answers with.\<close>

definition created_id :: "string dict \<Rightarrow> string option" where
  "created_id resp = dict_get ''task_id'' resp"

text \<open>The identifiers handed out along a history, oldest first.\<close>

fun assigned_ids :: "'w provider \<Rightarrow> event list \<Rightarrow> 'w state \<Rightarrow> string option list" where
  "assigned_ids P [] s = []"
| "assigned_ids P (ev # evs) s =
     (case ev of CreateTask cfg \<Rightarrow> [created_id (fst (create_task cfg s))] | _ \<Rightarrow> [])
     @ assigned_ids P evs (apply_event P ev s)"

text \<open>A run of the task has been started and has not ended.\<close>

definition run_active :: "string \<Rightarrow> 'w state \<Rightarrow> bool" where
  "run_active tid s = (tid \<in> set (scheduled s))"


text \<open>
  The Step Result a step carries, and the shapes the loop writes: an encoded image for a
  \<^verbatim>\<open>screenshot\<close> step, one text or a list of texts for an \<^verbatim>\<open>extract\<close> step.
\<close>

definition step_result :: "step \<Rightarrow> jval option" where
  "step_result st = dict_get ''result'' st"

fun is_screenshot_result :: "jval option \<Rightarrow> bool" where
  "is_screenshot_result (Some (VDict [(k, VStr enc)])) = (k = ''screenshot'')"
| "is_screenshot_result _ = False"

fun is_extract_result :: "jval option \<Rightarrow> bool" where
  "is_extract_result (Some (VDict [(k, VNone)])) = (k = ''text'')"
| "is_extract_result (Some (VDict [(k, VStr t)])) = (k = ''text'')"
| "is_extract_result (Some (VDict [(k, VList ts)])) = (k = ''texts'' \<and> ts \<noteq> [])"
| "is_extract_result _ = False"

text \<open>
  How a step that ran without raising relates to the step before the run: apart from the
  key \<^verbatim>\<open>result\<close> it is the same; a screenshot step carries an image, an extract step
  either is as it was or carries what it extracted, and a step of another kind is as it
  was.
\<close>

definition step_after :: "step \<Rightarrow> step \<Rightarrow> bool" where
  "step_after x y =
     (dict_without ''result'' y = dict_without ''result'' x \<and>
      (if dict_get ''type'' x = Some (VStr ''screenshot'') then is_screenshot_result (step_result y)
       else if dict_get ''type'' x = Some (VStr ''extract'')
         then (y = x \<or> is_extract_result (step_result y))
       else y = x))"

text \<open>An \<^verbatim>\<open>extract\<close> step whose query, made in world \<open>w\<close>, matches nothing and leaves \<open>w'\<close>.\<close>

definition extract_matches_none :: "'w provider \<Rightarrow> step \<Rightarrow> 'w \<Rightarrow> 'w \<Rightarrow> bool" where
  "extract_matches_none P st w w' =
     (dict_get ''type'' st = Some (VStr ''extract'') \<and>
      (if dict_has ''selector'' st
       then page_query_selector P (step_get ''selector'' st) w = (Inr None, w')
       else dict_has ''xpath'' st \<and> page_xpath P (step_get ''xpath'' st) w = (Inr [], w')))"

text \<open>The stored definition with the Step Results taken off its steps.\<close>

definition without_results :: "task_config \<Rightarrow> task_config" where
  "without_results task = task\<lparr>steps := map (dict_without ''result'') (steps task)\<rparr>"

section \<open>Step Results, in the words of the specification\<close>




text \<open>
  The exception that leaves the \<^verbatim>\<open>async with\<close> block when its body raised \<open>e\<close>: stopping
  Playwright may raise as well, and then that exception replaces \<open>e\<close>.
\<close>

definition leaving_exn :: "'w provider \<Rightarrow> exn \<Rightarrow> 'w \<Rightarrow> exn" where
  "leaving_exn P e w = (case playwright_stop P w of (Inl e', _) \<Rightarrow> e' | (Inr _, _) \<Rightarrow> e)"

section \<open>Runs that overlap\<close>













definition stop_fails_provider :: "nat provider" where
  "stop_fails_provider =
     demo_provider\<lparr>playwright_stop := (\<lambda>w. (Inl (ProviderError ''Driver closed''), Suc w))\<rparr>"


text \<open>Status and result both report the run as failed, with the message \<open>m\<close>.\<close>

definition failed_with :: "string \<Rightarrow> string \<Rightarrow> 'w state \<Rightarrow> bool" where
  "failed_with tid m s =
     (get_task_status tid s =
        Inr \<lparr>task_id = tid, status = ''failed'', progress = Some 1, message = Some m\<rparr>
      \<and> get_task_result tid s =
        Inr \<lparr>task_id = tid, status = ''failed'', result = None, error = Some m\<rparr>)"

definition navigate_nowhere_step :: step where
  "navigate_nowhere_step = [(''type'', VStr ''navigate'')]"






section \<open>Dictionaries and decimal numerals\<close>

lemma dict_without_set: "dict_without k (dict_set k v d) = dict_without k d"
  by (induction d) auto

lemma dict_get_set: "dict_get k (dict_set k' v d) = (if k = k' then Some v else dict_get k d)"
  by (induction d) auto

lemma dict_get_None_iff: "dict_get k d = None \<longleftrightarrow> k \<notin> set (dict_keys d)"
  by (induction d) (auto simp: dict_keys_def split: if_splits)

lemma dict_set_absent: "dict_get k d = None \<Longrightarrow> dict_set k v d = d @ [(k, v)]"
  by (induction d) (auto split: if_splits)

lemma dict_keys_set_present: "dict_get k d \<noteq> None \<Longrightarrow> dict_keys (dict_set k v d) = dict_keys d"
  by (induction d) (auto simp: dict_keys_def)

lemma dict_set_same: "dict_get k d = Some v \<Longrightarrow> dict_set k v d = d"
  by (induction d) (auto split: if_splits)

lemma dict_set_set: "dict_set k v (dict_set k v' d) = dict_set k v d"
  by (induction d) auto


lemma digit_char_inj: "a < 10 \<Longrightarrow> b < 10 \<Longrightarrow> digit_char a = digit_char b \<Longrightarrow> a = b"
proof -
  assume a: "a < 10" and b: "b < 10" and eq: "digit_char a = digit_char b"
  have d: "distinct ''0123456789''" by simp
  have "length ''0123456789'' = 10" by simp
  with a b d eq show "a = b"
    unfolding digit_char_def by (metis nth_eq_iff_index_eq)
qed

lemma str_nat_nonempty: "str_nat n \<noteq> []"
  by (subst str_nat.simps) simp

lemma str_nat_inj: "str_nat n = str_nat m \<Longrightarrow> n = m"
proof (induction n arbitrary: m rule: str_nat.induct)
  case (1 n)
  show ?case
  proof (cases "n < 10")
    case True
    then have n: "str_nat n = [digit_char n]" by (subst str_nat.simps) simp
    show ?thesis
    proof (cases "m < 10")
      case True
      then have "str_nat m = [digit_char m]" by (subst str_nat.simps) simp
      with n "1.prems" \<open>n < 10\<close> True show ?thesis by (auto dest: digit_char_inj)
    next
      case False
      then have "str_nat m = str_nat (m div 10) @ [digit_char (m mod 10)]"
        by (subst str_nat.simps) simp
      with n "1.prems" str_nat_nonempty[of "m div 10"] show ?thesis by auto
    qed
  next
    case False
    then have n: "str_nat n = str_nat (n div 10) @ [digit_char (n mod 10)]"
      by (subst str_nat.simps) simp
    show ?thesis
    proof (cases "m < 10")
      case True
      then have "str_nat m = [digit_char m]" by (subst str_nat.simps) simp
      with n "1.prems" str_nat_nonempty[of "n div 10"] show ?thesis by auto
    next
      case mf: False
      then have m: "str_nat m = str_nat (m div 10) @ [digit_char (m mod 10)]"
        by (subst str_nat.simps) simp
      from n m "1.prems" have e1: "str_nat (n div 10) = str_nat (m div 10)"
        and e2: "digit_char (n mod 10) = digit_char (m mod 10)" by auto
      from "1.IH"[OF False e1] have "n div 10 = m div 10" .
      moreover from e2 have "n mod 10 = m mod 10" by (rule digit_char_inj[rotated 2]) simp_all
      ultimately show ?thesis by (metis div_mult_mod_eq)
    qed
  qed
qed

section \<open>What a step and the loop leave behind\<close>

lemma io_bind_Inr:
  "io_bind m f w = (Inr b, w') \<longleftrightarrow> (\<exists>a w1. m w = (Inr a, w1) \<and> f a w1 = (Inr b, w'))"
  by (auto simp: io_bind_def split: prod.splits sum.splits)

lemma io_return_eq: "io_return a w = (r, w') \<longleftrightarrow> r = Inr a \<and> w' = w"
  by (auto simp: io_return_def)

lemma io_of_eq: "io_of r w = (r', w') \<longleftrightarrow> r' = r \<and> w' = w"
  by (auto simp: io_of_def)

lemma text_contents_length:
  "text_contents P els w = (Inr ts, w') \<Longrightarrow> length ts = length els"
proof (induction els arbitrary: w ts w')
  case Nil
  then show ?case by (simp add: io_return_eq)
next
  case (Cons el els)
  then show ?case by (auto simp: io_bind_Inr io_return_eq)
qed

lemma exec_step_screenshot_eq:
  "dict_get ''type'' x = Some (VStr ''screenshot'') \<Longrightarrow>
   exec_step P x = io_bind (page_screenshot P) (\<lambda>screenshot.
        io_return (dict_set ''result''
          (VDict [(''screenshot'', VStr (b64encode screenshot))]) x))"
  by (simp add: exec_step_def)

lemma exec_step_extract_eq:
  "dict_get ''type'' x = Some (VStr ''extract'') \<Longrightarrow>
   exec_step P x =
        (if dict_has ''selector'' x then
           io_bind (io_of (step_item ''selector'' x)) (\<lambda>sel.
           io_bind (page_query_selector P sel) (\<lambda>element.
           case element of
             Some el \<Rightarrow>
               io_bind (element_text_content P el) (\<lambda>text.
               io_return (dict_set ''result'' (VDict [(''text'', text_value text)]) x))
           | None \<Rightarrow> io_return x))
         else if dict_has ''xpath'' x then
           io_bind (io_of (step_item ''xpath'' x)) (\<lambda>xp.
           io_bind (page_xpath P xp) (\<lambda>elements.
           if elements \<noteq> [] then
             io_bind (text_contents P elements) (\<lambda>texts.
             io_return (dict_set ''result'' (VDict [(''texts'', VList texts)]) x))
           else io_return x))
         else io_return x)"
  by (simp add: exec_step_def)

lemma exec_step_screenshot:
  assumes ty: "dict_get ''type'' x = Some (VStr ''screenshot'')"
    and ex: "exec_step P x w = (Inr y, w')"
  shows "step_after x y"
  using ex ty unfolding exec_step_screenshot_eq[OF ty]
  by (auto simp: io_bind_Inr io_return_eq step_after_def step_result_def
      dict_without_set dict_get_set)

lemma is_extract_text: "is_extract_result (Some (VDict [(''text'', text_value t)]))"
  by (cases t) (simp_all add: text_value_def)

lemma exec_step_extract:
  assumes ty: "dict_get ''type'' x = Some (VStr ''extract'')"
    and ex: "exec_step P x w = (Inr y, w')"
  shows "step_after x y"
proof (cases "dict_has ''selector'' x")
  case True
  with ex ty show ?thesis unfolding exec_step_extract_eq[OF ty]
    by (auto simp: io_bind_Inr io_return_eq io_of_eq step_after_def step_result_def
        dict_without_set dict_get_set is_extract_text split: option.splits)
next
  case sel: False
  show ?thesis
  proof (cases "dict_has ''xpath'' x")
    case True
    with sel ex ty show ?thesis unfolding exec_step_extract_eq[OF ty]
      by (auto simp: io_bind_Inr io_return_eq io_of_eq step_after_def step_result_def
        dict_without_set dict_get_set split: if_splits dest!: text_contents_length)
  next
    case False
    with sel ex ty show ?thesis unfolding exec_step_extract_eq[OF ty]
      by (simp add: io_return_eq step_after_def)
  qed
qed


lemma io_frame1: "io_bind m (\<lambda>_. io_return x) w = (Inr y, w') \<Longrightarrow> y = x"
  by (auto simp: io_bind_Inr io_return_eq)

lemma io_frame2: "io_bind m (\<lambda>a. io_bind (f a) (\<lambda>_. io_return x)) w = (Inr y, w') \<Longrightarrow> y = x"
  by (auto simp: io_bind_Inr io_return_eq)

lemma io_frame3:
  "io_bind m (\<lambda>a. io_bind (g a) (\<lambda>b. io_bind (f a b) (\<lambda>_. io_return x))) w = (Inr y, w')
   \<Longrightarrow> y = x"
  by (auto simp: io_bind_Inr io_return_eq)

lemma exec_step_navigate:
  assumes ty: "dict_get ''type'' x = Some (VStr ''navigate'')"
    and ex: "exec_step P x w = (Inr y, w')"
  shows "y = x"
  using ex ty by (simp add: exec_step_def) (erule io_frame2)

lemma exec_step_click:
  assumes ty: "dict_get ''type'' x = Some (VStr ''click'')"
    and ex: "exec_step P x w = (Inr y, w')"
  shows "y = x"
proof -
  have "exec_step P x =
        (if dict_has ''selector'' x then
           io_bind (io_of (step_item ''selector'' x)) (\<lambda>sel.
           io_bind (page_click P sel) (\<lambda>_. io_return x))
         else if dict_has ''coordinates'' x then
           io_bind (io_of (step_item ''coordinates'' x)) (\<lambda>c.
           io_bind (io_of (unpack2 c)) (\<lambda>(a, b).
           io_bind (mouse_click P a b) (\<lambda>_. io_return x)))
         else io_return x)"
    using ty by (simp add: exec_step_def)
  with ex show ?thesis
    by (auto simp: io_bind_Inr io_return_eq split: if_splits prod.splits)
qed

lemma exec_step_type:
  assumes ty: "dict_get ''type'' x = Some (VStr ''type'')"
    and ex: "exec_step P x w = (Inr y, w')"
  shows "y = x"
proof -
  have "exec_step P x =
        io_bind (io_of (step_item ''selector'' x)) (\<lambda>sel.
        io_bind (io_of (step_item ''text'' x)) (\<lambda>text.
        io_bind (page_fill P sel text) (\<lambda>_. io_return x)))"
    using ty by (simp add: exec_step_def)
  with ex show ?thesis by (auto dest: io_frame3)
qed

lemma exec_step_select:
  assumes ty: "dict_get ''type'' x = Some (VStr ''select'')"
    and ex: "exec_step P x w = (Inr y, w')"
  shows "y = x"
proof -
  have "exec_step P x =
        io_bind (io_of (step_item ''selector'' x)) (\<lambda>sel.
        io_bind (page_select_option P sel (step_get ''value'' x)) (\<lambda>_. io_return x))"
    using ty by (simp add: exec_step_def)
  with ex show ?thesis by (auto dest: io_frame2)
qed

lemma exec_step_wait:
  assumes ty: "dict_get ''type'' x = Some (VStr ''wait'')"
    and ex: "exec_step P x w = (Inr y, w')"
  shows "y = x"
proof -
  have "exec_step P x =
        (if dict_has ''time'' x then
           io_bind (io_of (step_item ''time'' x)) (\<lambda>t.
           io_bind (asyncio_sleep P t) (\<lambda>_. io_return x))
         else if dict_has ''selector'' x then
           io_bind (io_of (step_item ''selector'' x)) (\<lambda>sel.
           io_bind (page_wait_for_selector P sel) (\<lambda>_. io_return x))
         else io_return x)"
    using ty by (simp add: exec_step_def)
  with ex show ?thesis
    by (auto simp: io_return_eq split: if_splits dest: io_frame2)
qed

lemma exec_step_unknown:
  assumes "dict_get ''type'' x \<noteq> Some (VStr ''navigate'')"
    "dict_get ''type'' x \<noteq> Some (VStr ''click'')"
    "dict_get ''type'' x \<noteq> Some (VStr ''type'')"
    "dict_get ''type'' x \<noteq> Some (VStr ''select'')"
    "dict_get ''type'' x \<noteq> Some (VStr ''wait'')"
    "dict_get ''type'' x \<noteq> Some (VStr ''screenshot'')"
    "dict_get ''type'' x \<noteq> Some (VStr ''extract'')"
  shows "exec_step P x = io_return x"
  using assms by (simp add: exec_step_def)

lemma exec_step_other:
  assumes n1: "dict_get ''type'' x \<noteq> Some (VStr ''screenshot'')"
    and n2: "dict_get ''type'' x \<noteq> Some (VStr ''extract'')"
    and ex: "exec_step P x w = (Inr y, w')"
  shows "y = x"
proof -
  consider "dict_get ''type'' x = Some (VStr ''navigate'')"
    | "dict_get ''type'' x = Some (VStr ''click'')"
    | "dict_get ''type'' x = Some (VStr ''type'')"
    | "dict_get ''type'' x = Some (VStr ''select'')"
    | "dict_get ''type'' x = Some (VStr ''wait'')"
    | "dict_get ''type'' x \<noteq> Some (VStr ''navigate'')"
      "dict_get ''type'' x \<noteq> Some (VStr ''click'')"
      "dict_get ''type'' x \<noteq> Some (VStr ''type'')"
      "dict_get ''type'' x \<noteq> Some (VStr ''select'')"
      "dict_get ''type'' x \<noteq> Some (VStr ''wait'')"
    by blast
  then show ?thesis
  proof cases
    case 1 then show ?thesis using ex by (rule exec_step_navigate)
  next
    case 2 then show ?thesis using ex by (rule exec_step_click)
  next
    case 3 then show ?thesis using ex by (rule exec_step_type)
  next
    case 4 then show ?thesis using ex by (rule exec_step_select)
  next
    case 5 then show ?thesis using ex by (rule exec_step_wait)
  next
    case 6
    with n1 n2 have "exec_step P x = io_return x" by (intro exec_step_unknown)
    with ex show ?thesis by (simp add: io_return_eq)
  qed
qed

lemma exec_step_after: "exec_step P x w = (Inr y, w') \<Longrightarrow> step_after x y"
proof -
  assume ex: "exec_step P x w = (Inr y, w')"
  consider (shot) "dict_get ''type'' x = Some (VStr ''screenshot'')"
    | (extr) "dict_get ''type'' x = Some (VStr ''extract'')"
    | (other) "dict_get ''type'' x \<noteq> Some (VStr ''screenshot'')"
        "dict_get ''type'' x \<noteq> Some (VStr ''extract'')"
    by blast
  then show ?thesis
  proof cases
    case shot
    then show ?thesis using ex by (rule exec_step_screenshot)
  next
    case extr
    then show ?thesis using ex by (rule exec_step_extract)
  next
    case other
    from exec_step_other[OF other ex] other show ?thesis by (simp add: step_after_def)
  qed
qed

lemma step_after_length: "list_all2 step_after xs ys \<Longrightarrow> length ys = length xs"
  by (simp add: list_all2_lengthD)

lemma run_steps_ok:
  "run_steps P xs w = ((None, ys), w') \<Longrightarrow> list_all2 step_after xs ys"
proof (induction xs arbitrary: w ys w')
  case Nil
  then show ?case by simp
next
  case (Cons x xs)
  from Cons.prems obtain y w1 ys' where
    ex: "exec_step P x w = (Inr y, w1)" and
    rest: "run_steps P xs w1 = ((None, ys'), w')" and ys: "ys = y # ys'"
    by (auto split: prod.splits sum.splits)
  from exec_step_after[OF ex] Cons.IH[OF rest] ys show ?case by simp
qed

lemma run_steps_fail:
  "run_steps P xs w = ((Some e, ys), w') \<Longrightarrow>
   \<exists>k w1 w2. k < length xs \<and> list_all2 step_after (take k xs) (take k ys)
     \<and> drop k ys = drop k xs \<and> exec_step P (xs ! k) w1 = (Inl e, w2)"
proof (induction xs arbitrary: w ys w')
  case Nil
  then show ?case by simp
next
  case (Cons x xs)
  show ?case
  proof (cases "exec_step P x w")
    case (Pair r w1)
    show ?thesis
    proof (cases r)
      case (Inl e')
      with Pair Cons.prems have "e' = e" "ys = x # xs" by auto
      with Pair Inl have "0 < length (x # xs) \<and> list_all2 step_after (take 0 (x # xs)) (take 0 ys)
         \<and> drop 0 ys = drop 0 (x # xs) \<and> exec_step P ((x # xs) ! 0) w = (Inl e, w1)"
        by simp
      then show ?thesis by blast
    next
      case (Inr y)
      with Pair Cons.prems obtain ys' where
        rest: "run_steps P xs w1 = ((Some e, ys'), w')" and ys: "ys = y # ys'"
        by (auto split: prod.splits)
      from Cons.IH[OF rest] obtain k wa wb where
        k: "k < length xs" "list_all2 step_after (take k xs) (take k ys')"
           "drop k ys' = drop k xs" "exec_step P (xs ! k) wa = (Inl e, wb)"
        by blast
      from Pair Inr have "step_after x y" by (auto intro: exec_step_after)
      with k ys have "Suc k < length (x # xs) \<and>
          list_all2 step_after (take (Suc k) (x # xs)) (take (Suc k) ys)
         \<and> drop (Suc k) ys = drop (Suc k) (x # xs)
         \<and> exec_step P ((x # xs) ! Suc k) wa = (Inl e, wb)"
        by simp
      then show ?thesis by blast
    qed
  qed
qed

lemma step_after_without: "step_after x y \<Longrightarrow> dict_without ''result'' y = dict_without ''result'' x"
  by (simp add: step_after_def)

lemma run_steps_frame:
  "run_steps P xs w = ((r, ys), w') \<Longrightarrow> list_all2 (\<lambda>x y. y = x \<or> step_after x y) xs ys"
proof (induction xs arbitrary: w ys w')
  case Nil
  then show ?case by simp
next
  case (Cons x xs)
  show ?case
  proof (cases "exec_step P x w")
    case (Pair a w1)
    show ?thesis
    proof (cases a)
      case (Inl e)
      with Pair Cons.prems have "ys = x # xs" by auto
      then show ?thesis by (simp add: list_all2_same)
    next
      case (Inr y)
      with Pair Cons.prems obtain ys' where
        rest: "run_steps P xs w1 = ((r, ys'), w')" and ys: "ys = y # ys'"
        by (auto split: prod.splits)
      from Pair Inr have "step_after x y" by (auto intro: exec_step_after)
      with Cons.IH[OF rest] ys show ?thesis by simp
    qed
  qed
qed

lemma frame_without:
  "list_all2 (\<lambda>x y. y = x \<or> step_after x y) xs ys \<Longrightarrow>
   map (dict_without ''result'') ys = map (dict_without ''result'') xs"
  by (induction xs ys rule: list_all2_induct) (auto dest: step_after_without)

lemma with_body_shape:
  assumes reg: "dict_get tid (tasks s) = Some task"
  shows "\<exists>sts w'. list_all2 (\<lambda>x y. y = x \<or> step_after x y) (steps task) sts \<and>
     (with_body P tid task s =
        (None, s\<lparr>tasks := dict_set tid (task\<lparr>steps := sts\<rparr>) (tasks s),
                 results := dict_set tid (Result sts) (results s), world := w'\<rparr>)
      \<or> (\<exists>e. with_body P tid task s =
        (Some e, s\<lparr>tasks := dict_set tid (task\<lparr>steps := sts\<rparr>) (tasks s), world := w'\<rparr>)))"
proof (cases "session_setup P task (world s)")
  case (Pair a w1)
  show ?thesis
  proof (cases a)
    case (Inl e)
    from reg have "dict_set tid (task\<lparr>steps := steps task\<rparr>) (tasks s) = tasks s"
      by (simp add: dict_set_same)
    with Pair Inl have "with_body P tid task s =
        (Some e, s\<lparr>tasks := dict_set tid (task\<lparr>steps := steps task\<rparr>) (tasks s), world := w1\<rparr>)"
      by (simp add: with_body_def)
    moreover have "list_all2 (\<lambda>x y. y = x \<or> step_after x y) (steps task) (steps task)"
      by (simp add: list_all2_same)
    ultimately show ?thesis by blast
  next
    case (Inr u)
    obtain r sts w2 where rs: "run_steps P (steps task) w1 = ((r, sts), w2)"
      by (metis prod.exhaust)
    note fr = run_steps_frame[OF rs]
    show ?thesis
    proof (cases r)
      case (Some e)
      with Pair Inr rs have "with_body P tid task s =
        (Some e, s\<lparr>tasks := dict_set tid (task\<lparr>steps := sts\<rparr>) (tasks s), world := w2\<rparr>)"
        by (simp add: with_body_def)
      with fr show ?thesis by blast
    next
      case None
      show ?thesis
      proof (cases "browser_close P w2")
        case cl: (Pair c w3)
        show ?thesis
        proof (cases c)
          case (Inl e)
          with Pair Inr rs None cl have "with_body P tid task s =
            (Some e, s\<lparr>tasks := dict_set tid (task\<lparr>steps := sts\<rparr>) (tasks s), world := w3\<rparr>)"
            by (simp add: with_body_def)
          with fr show ?thesis by blast
        next
          case r2: (Inr u2)
          with Pair Inr rs None cl have "with_body P tid task s =
            (None, s\<lparr>tasks := dict_set tid (task\<lparr>steps := sts\<rparr>) (tasks s),
                 results := dict_set tid (Result sts) (results s), world := w3\<rparr>)"
            by (simp add: with_body_def)
          with fr show ?thesis by blast
        qed
      qed
    qed
  qed
qed

section \<open>The shape of a run\<close>

lemma run_try_shape:
  assumes reg: "dict_get tid (tasks s) = Some task"
  shows "\<exists>sts w'. list_all2 (\<lambda>x y. y = x \<or> step_after x y) (steps task) sts \<and>
     (run_try P tid task s =
        (None, s\<lparr>tasks := dict_set tid (task\<lparr>steps := sts\<rparr>) (tasks s),
                 results := dict_set tid (Result sts) (results s), world := w'\<rparr>)
      \<or> (\<exists>e. run_try P tid task s =
        (Some e, s\<lparr>tasks := dict_set tid (task\<lparr>steps := sts\<rparr>) (tasks s), world := w'\<rparr>))
      \<or> (\<exists>e. run_try P tid task s =
        (Some e, s\<lparr>tasks := dict_set tid (task\<lparr>steps := sts\<rparr>) (tasks s),
                 results := dict_set tid (Result sts) (results s), world := w'\<rparr>)))"
proof (cases "async_playwright P (world s)")
  case (Pair a w0)
  show ?thesis
  proof (cases a)
    case (Inl e)
    from reg have "dict_set tid (task\<lparr>steps := steps task\<rparr>) (tasks s) = tasks s"
      by (simp add: dict_set_same)
    with Pair Inl have "run_try P tid task s =
        (Some e, s\<lparr>tasks := dict_set tid (task\<lparr>steps := steps task\<rparr>) (tasks s), world := w0\<rparr>)"
      by (simp add: run_try_def)
    moreover have "list_all2 (\<lambda>x y. y = x \<or> step_after x y) (steps task) (steps task)"
      by (simp add: list_all2_same)
    ultimately show ?thesis by blast
  next
    case (Inr u)
    from reg have reg0: "dict_get tid (tasks (s\<lparr>world := w0\<rparr>)) = Some task" by simp
    from with_body_shape[OF reg0, of P] obtain sts w1 where
      fr: "list_all2 (\<lambda>x y. y = x \<or> step_after x y) (steps task) sts" and
      wb: "with_body P tid task (s\<lparr>world := w0\<rparr>) =
        (None, s\<lparr>tasks := dict_set tid (task\<lparr>steps := sts\<rparr>) (tasks s),
                 results := dict_set tid (Result sts) (results s), world := w1\<rparr>)
      \<or> (\<exists>e. with_body P tid task (s\<lparr>world := w0\<rparr>) =
        (Some e, s\<lparr>tasks := dict_set tid (task\<lparr>steps := sts\<rparr>) (tasks s), world := w1\<rparr>))"
      by auto
    obtain c w2 where st: "playwright_stop P w1 = (c, w2)" by (metis prod.exhaust)
    from wb show ?thesis
    proof (elim disjE exE)
      assume b: "with_body P tid task (s\<lparr>world := w0\<rparr>) =
        (None, s\<lparr>tasks := dict_set tid (task\<lparr>steps := sts\<rparr>) (tasks s),
                 results := dict_set tid (Result sts) (results s), world := w1\<rparr>)"
      show ?thesis
      proof (cases c)
        case (Inl e')
        with Pair Inr b st have "run_try P tid task s =
          (Some e', s\<lparr>tasks := dict_set tid (task\<lparr>steps := sts\<rparr>) (tasks s),
                 results := dict_set tid (Result sts) (results s), world := w2\<rparr>)"
          by (simp add: run_try_def)
        with fr show ?thesis by blast
      next
        case r2: (Inr u2)
        with Pair Inr b st have "run_try P tid task s =
          (None, s\<lparr>tasks := dict_set tid (task\<lparr>steps := sts\<rparr>) (tasks s),
                 results := dict_set tid (Result sts) (results s), world := w2\<rparr>)"
          by (simp add: run_try_def)
        with fr show ?thesis by blast
      qed
    next
      fix e assume b: "with_body P tid task (s\<lparr>world := w0\<rparr>) =
        (Some e, s\<lparr>tasks := dict_set tid (task\<lparr>steps := sts\<rparr>) (tasks s), world := w1\<rparr>)"
      show ?thesis
      proof (cases c)
        case (Inl e')
        with Pair Inr b st have "run_try P tid task s =
          (Some e', s\<lparr>tasks := dict_set tid (task\<lparr>steps := sts\<rparr>) (tasks s), world := w2\<rparr>)"
          by (simp add: run_try_def)
        with fr show ?thesis by blast
      next
        case r2: (Inr u2)
        with Pair Inr b st have "run_try P tid task s =
          (Some e, s\<lparr>tasks := dict_set tid (task\<lparr>steps := sts\<rparr>) (tasks s), world := w2\<rparr>)"
          by (simp add: run_try_def)
        with fr show ?thesis by blast
      qed
    qed
  qed
qed

lemma run_automation_shape:
  assumes reg: "dict_get tid (tasks s) = Some task"
  shows "\<exists>sts entry w'. list_all2 (\<lambda>x y. y = x \<or> step_after x y) (steps task) sts \<and>
     run_automation P tid s =
        Inr (s\<lparr>tasks := dict_set tid (task\<lparr>steps := sts\<rparr>) (tasks s),
                 results := dict_set tid entry (results s), world := w'\<rparr>)
     \<and> entry = (case fst (run_try P tid task s) of
                  None \<Rightarrow> Result sts | Some e \<Rightarrow> Error (str_exn e))"
proof -
  from run_try_shape[OF reg, of P] obtain sts w' where
    fr: "list_all2 (\<lambda>x y. y = x \<or> step_after x y) (steps task) sts" and
    rt: "run_try P tid task s =
        (None, s\<lparr>tasks := dict_set tid (task\<lparr>steps := sts\<rparr>) (tasks s),
                 results := dict_set tid (Result sts) (results s), world := w'\<rparr>)
      \<or> (\<exists>e. run_try P tid task s =
        (Some e, s\<lparr>tasks := dict_set tid (task\<lparr>steps := sts\<rparr>) (tasks s), world := w'\<rparr>))
      \<or> (\<exists>e. run_try P tid task s =
        (Some e, s\<lparr>tasks := dict_set tid (task\<lparr>steps := sts\<rparr>) (tasks s),
                 results := dict_set tid (Result sts) (results s), world := w'\<rparr>))"
    by auto
  from rt show ?thesis
  proof (elim disjE exE)
    assume a: "run_try P tid task s =
        (None, s\<lparr>tasks := dict_set tid (task\<lparr>steps := sts\<rparr>) (tasks s),
                 results := dict_set tid (Result sts) (results s), world := w'\<rparr>)"
    with reg have "run_automation P tid s =
        Inr (s\<lparr>tasks := dict_set tid (task\<lparr>steps := sts\<rparr>) (tasks s),
                 results := dict_set tid (Result sts) (results s), world := w'\<rparr>)
      \<and> Result sts = (case fst (run_try P tid task s) of
                  None \<Rightarrow> Result sts | Some e \<Rightarrow> Error (str_exn e))"
      by (simp add: run_automation_def)
    with fr show ?thesis by blast
  next
    fix e assume a: "run_try P tid task s =
        (Some e, s\<lparr>tasks := dict_set tid (task\<lparr>steps := sts\<rparr>) (tasks s), world := w'\<rparr>)"
    with reg have "run_automation P tid s =
        Inr (s\<lparr>tasks := dict_set tid (task\<lparr>steps := sts\<rparr>) (tasks s),
                 results := dict_set tid (Error (str_exn e)) (results s), world := w'\<rparr>)
      \<and> Error (str_exn e) = (case fst (run_try P tid task s) of
                  None \<Rightarrow> Result sts | Some e \<Rightarrow> Error (str_exn e))"
      by (simp add: run_automation_def)
    with fr show ?thesis by blast
  next
    fix e assume a: "run_try P tid task s =
        (Some e, s\<lparr>tasks := dict_set tid (task\<lparr>steps := sts\<rparr>) (tasks s),
                 results := dict_set tid (Result sts) (results s), world := w'\<rparr>)"
    with reg have "run_automation P tid s =
        Inr (s\<lparr>tasks := dict_set tid (task\<lparr>steps := sts\<rparr>) (tasks s),
                 results := dict_set tid (Error (str_exn e)) (results s), world := w'\<rparr>)
      \<and> Error (str_exn e) = (case fst (run_try P tid task s) of
                  None \<Rightarrow> Result sts | Some e \<Rightarrow> Error (str_exn e))"
      by (simp add: run_automation_def dict_set_set)
    with fr show ?thesis by blast
  qed
qed

section \<open>The registry along a history\<close>

lemma registry_ok_init: "registry_ok (init_state w)"
  by (simp add: registry_ok_def init_state_def dict_keys_def task_ids_def)

lemma task_ids_Suc: "task_ids (Suc n) = task_ids n @ [''task_'' @ str_nat (Suc n)]"
  by (simp add: task_ids_def)

lemma fresh_not_in_task_ids: "''task_'' @ str_nat (Suc n) \<notin> set (task_ids n)"
  by (auto simp: task_ids_def dest: str_nat_inj)

lemma fresh_id:
  assumes "registry_ok s"
  shows "dict_get (''task_'' @ str_nat (Suc (length (tasks s)))) (tasks s) = None"
proof -
  from assms have "dict_keys (tasks s) = task_ids (length (tasks s))"
    by (simp add: registry_ok_def)
  with fresh_not_in_task_ids[of "length (tasks s)"]
  have "''task_'' @ str_nat (Suc (length (tasks s))) \<notin> set (dict_keys (tasks s))"
    by metis
  then show ?thesis by (rule dict_get_None_iff[THEN iffD2])
qed

lemma registry_ok_scheduled [simp]: "registry_ok (s\<lparr>scheduled := x\<rparr>) = registry_ok s"
  by (simp add: registry_ok_def)

lemma create_task_appends:
  assumes "registry_ok s"
  shows "tasks (snd (create_task cfg s)) =
         tasks s @ [(''task_'' @ str_nat (Suc (length (tasks s))), cfg)]"
proof -
  have "dict_set (''task_'' @ str_nat (Suc (length (tasks s)))) cfg (tasks s) =
        tasks s @ [(''task_'' @ str_nat (Suc (length (tasks s))), cfg)]"
    using fresh_id[OF assms] by (rule dict_set_absent)
  then show ?thesis by (simp add: create_task_def Let_def)
qed

lemma create_task_other: "results (snd (create_task cfg s)) = results s"
  "scheduled (snd (create_task cfg s)) = scheduled s" "world (snd (create_task cfg s)) = world s"
  by (simp_all add: create_task_def Let_def)

lemma registry_ok_create: "registry_ok s \<Longrightarrow> registry_ok (snd (create_task cfg s))"
proof -
  assume ok: "registry_ok s"
  let ?s' = "snd (create_task cfg s)"
  let ?tid = "''task_'' @ str_nat (Suc (length (tasks s)))"
  note app = create_task_appends[OF ok, of cfg]
  from ok have k: "dict_keys (tasks s) = task_ids (length (tasks s))"
    and r: "set (dict_keys (results s)) \<subseteq> set (dict_keys (tasks s))"
    unfolding registry_ok_def by blast+
  from app have len: "length (tasks ?s') = Suc (length (tasks s))" by simp
  from app have "dict_keys (tasks ?s') = dict_keys (tasks s) @ [?tid]"
    by (simp add: dict_keys_def)
  with k have k': "dict_keys (tasks ?s') = task_ids (length (tasks ?s'))"
    unfolding len task_ids_Suc by simp
  from app have "set (dict_keys (tasks s)) \<subseteq> set (dict_keys (tasks ?s'))"
    by (auto simp: dict_keys_def)
  with r have "set (dict_keys (results ?s')) \<subseteq> set (dict_keys (tasks ?s'))"
    by (simp add: create_task_other)
  with k' show ?thesis unfolding registry_ok_def by (rule conjI)
qed

lemma registry_ok_run:
  assumes ok: "registry_ok s" and run: "run_automation P tid s = Inr s'"
  shows "registry_ok s'"
proof -
  from run obtain task where reg: "dict_get tid (tasks s) = Some task"
    by (auto simp: run_automation_def split: option.splits)
  from run_automation_shape[OF reg, of P] run obtain sts entry w' where
    s': "s' = s\<lparr>tasks := dict_set tid (task\<lparr>steps := sts\<rparr>) (tasks s),
                 results := dict_set tid entry (results s), world := w'\<rparr>"
    by auto
  from reg have k: "dict_keys (dict_set tid (task\<lparr>steps := sts\<rparr>) (tasks s)) = dict_keys (tasks s)"
    by (simp add: dict_keys_set_present)
  then have l: "length (dict_set tid (task\<lparr>steps := sts\<rparr>) (tasks s)) = length (tasks s)"
    by (metis dict_keys_def length_map)
  from reg have tin: "tid \<in> set (dict_keys (tasks s))"
    using dict_get_None_iff[of tid "tasks s"] by auto
  have sub: "set (dict_keys (dict_set tid entry (results s))) \<subseteq> insert tid (set (dict_keys (results s)))"
  proof
    fix k assume "k \<in> set (dict_keys (dict_set tid entry (results s)))"
    then have "dict_get k (dict_set tid entry (results s)) \<noteq> None"
      by (simp add: dict_get_None_iff)
    then have "k = tid \<or> dict_get k (results s) \<noteq> None"
      by (auto simp: dict_get_set split: if_splits)
    then show "k \<in> insert tid (set (dict_keys (results s)))"
      by (auto simp: dict_get_None_iff)
  qed
  from ok have k0: "dict_keys (tasks s) = task_ids (length (tasks s))"
    and r0: "set (dict_keys (results s)) \<subseteq> set (dict_keys (tasks s))"
    unfolding registry_ok_def by blast+
  from k0 k l have "dict_keys (tasks s') = task_ids (length (tasks s'))"
    unfolding s' by simp
  moreover from r0 tin sub k have "set (dict_keys (results s')) \<subseteq> set (dict_keys (tasks s'))"
    unfolding s' by auto
  ultimately show ?thesis unfolding registry_ok_def by (rule conjI)
qed

lemma registry_ok_apply_event: "registry_ok s \<Longrightarrow> registry_ok (apply_event P ev s)"
proof (cases ev)
  case (CreateTask cfg)
  assume "registry_ok s"
  with CreateTask show ?thesis by (simp add: apply_event_def registry_ok_create)
next
  case (ExecuteTask tid)
  assume "registry_ok s"
  with ExecuteTask show ?thesis
    by (simp add: apply_event_def execute_task_def)
next
  case (RunEnds i)
  assume ok: "registry_ok s"
  show ?thesis
  proof (cases "i < length (scheduled s)")
    case False
    with RunEnds ok show ?thesis by (simp add: apply_event_def)
  next
    case True
    let ?s0 = "s\<lparr>scheduled := take i (scheduled s) @ drop (Suc i) (scheduled s)\<rparr>"
    from ok have ok0: "registry_ok ?s0" by simp
    show ?thesis
    proof (cases "run_automation P (scheduled s ! i) ?s0")
      case (Inl e)
      with RunEnds True ok0 show ?thesis by (simp add: apply_event_def Let_def)
    next
      case (Inr s')
      from registry_ok_run[OF ok0 Inr] RunEnds True Inr show ?thesis
        by (simp add: apply_event_def Let_def)
    qed
  qed
qed

lemma registry_ok_run_events: "registry_ok s \<Longrightarrow> registry_ok (run_events P evs s)"
  by (induction evs arbitrary: s) (simp_all add: registry_ok_apply_event)

lemma registry_ok_history: "registry_ok (run_events P evs (init_state w))"
  by (rule registry_ok_run_events[OF registry_ok_init])

lemma run_automation_keys:
  assumes "run_automation P tid s = Inr s'"
  shows "dict_keys (tasks s') = dict_keys (tasks s)"
proof -
  from assms obtain task where reg: "dict_get tid (tasks s) = Some task"
    by (auto simp: run_automation_def split: option.splits)
  from run_automation_shape[OF reg, of P] assms obtain sts entry w' where
    s': "s' = s\<lparr>tasks := dict_set tid (task\<lparr>steps := sts\<rparr>) (tasks s),
                 results := dict_set tid entry (results s), world := w'\<rparr>"
    by auto
  from reg show ?thesis unfolding s' by (simp add: dict_keys_set_present)
qed

lemma execute_event_keys:
  "dict_keys (tasks (apply_event P (ExecuteTask tid) s)) = dict_keys (tasks s)"
  by (simp add: apply_event_def execute_task_def)

lemma run_event_keys:
  "dict_keys (tasks (apply_event P (RunEnds i) s)) = dict_keys (tasks s)"
proof (cases "i < length (scheduled s)")
  case False
  then show ?thesis by (simp add: apply_event_def)
next
  case True
  let ?s0 = "s\<lparr>scheduled := take i (scheduled s) @ drop (Suc i) (scheduled s)\<rparr>"
  show ?thesis
  proof (cases "run_automation P (scheduled s ! i) ?s0")
    case (Inl e)
    with True show ?thesis by (simp add: apply_event_def Let_def)
  next
    case (Inr s')
    from run_automation_keys[OF Inr] True Inr show ?thesis
      by (simp add: apply_event_def Let_def)
  qed
qed

lemma created_id_create:
  "created_id (fst (create_task cfg s)) = Some (''task_'' @ str_nat (Suc (length (tasks s))))"
  by (simp add: created_id_def create_task_def Let_def)

lemma assigned_ids_keys:
  "registry_ok s \<Longrightarrow>
   map Some (dict_keys (tasks s)) @ assigned_ids P evs s =
   map Some (dict_keys (tasks (run_events P evs s)))"
proof (induction evs arbitrary: s)
  case Nil
  then show ?case by simp
next
  case (Cons ev evs)
  note ok' = registry_ok_apply_event[OF Cons.prems, of P ev]
  note ih = Cons.IH[OF ok']
  show ?case
  proof (cases ev)
    case (CreateTask cfg)
    from create_task_appends[OF Cons.prems, of cfg]
    have "dict_keys (tasks (apply_event P ev s)) =
          dict_keys (tasks s) @ [''task_'' @ str_nat (Suc (length (tasks s)))]"
      unfolding CreateTask by (simp add: apply_event_def dict_keys_def)
    with ih show ?thesis unfolding CreateTask
      by (simp add: created_id_create)
  next
    case (ExecuteTask tid)
    with ih execute_event_keys[of P tid s] show ?thesis by simp
  next
    case (RunEnds i)
    with ih run_event_keys[of P i s] show ?thesis by simp
  qed
qed

lemma assigned_ids_append:
  "assigned_ids P (evs @ evs') s = assigned_ids P evs s @ assigned_ids P evs' (run_events P evs s)"
  by (induction evs arbitrary: s) simp_all

lemma task_ids_distinct: "distinct (task_ids n)"
proof (induction n)
  case 0
  show ?case by (simp add: task_ids_def)
next
  case (Suc n)
  with fresh_not_in_task_ids[of n] show ?case unfolding task_ids_Suc by simp
qed

section \<open>Task identifiers\<close>

text \<open>
  Claim C10. Creating a task never fails: after any history of the process, the call
  answers with the identifier \<^verbatim>\<open>task_N\<close>, where N is the number of stored tasks plus one.
  No task is ever removed, so the identifiers handed out so far are exactly the keys of
  \<^verbatim>\<open>tasks\<close>; the new identifier is not among them, and the identifiers handed out along
  the history extended by this call are pairwise distinct.
\<close>

theorem create_task_fresh_identifier:
  "fst (create_task cfg (run_events P evs (init_state w))) =
     [(''task_id'', ''task_'' @ str_nat (length (tasks (run_events P evs (init_state w))) + 1)),
      (''status'', ''created'')]
   \<and> assigned_ids P evs (init_state w) =
       map Some (dict_keys (tasks (run_events P evs (init_state w))))
   \<and> created_id (fst (create_task cfg (run_events P evs (init_state w))))
       \<notin> set (assigned_ids P evs (init_state w))
   \<and> distinct (assigned_ids P (evs @ [CreateTask cfg]) (init_state w))"
proof -
  let ?s = "run_events P evs (init_state w)"
  let ?tid = "''task_'' @ str_nat (Suc (length (tasks ?s)))"
  have ok: "registry_ok ?s" by (rule registry_ok_history)
  have resp: "fst (create_task cfg ?s) =
           [(''task_id'', ''task_'' @ str_nat (length (tasks ?s) + 1)), (''status'', ''created'')]"
    by (simp add: create_task_def Let_def)
  have ids: "assigned_ids P evs (init_state w) = map Some (dict_keys (tasks ?s))"
    using assigned_ids_keys[OF registry_ok_init, of w P evs]
    by (simp add: init_state_def dict_keys_def)
  from ok have keys: "dict_keys (tasks ?s) = task_ids (length (tasks ?s))"
    unfolding registry_ok_def by blast
  have cid: "created_id (fst (create_task cfg ?s)) = Some ?tid" by (rule created_id_create)
  from fresh_not_in_task_ids[of "length (tasks ?s)"] keys
  have "?tid \<notin> set (dict_keys (tasks ?s))" by metis
  then have fresh: "Some ?tid \<notin> set (map Some (dict_keys (tasks ?s)))" by auto
  have d: "distinct (map Some (dict_keys (tasks ?s)))"
    unfolding keys by (simp add: distinct_map task_ids_distinct)
  have "assigned_ids P (evs @ [CreateTask cfg]) (init_state w) =
        map Some (dict_keys (tasks ?s)) @ [Some ?tid]"
    unfolding assigned_ids_append ids by (simp add: cid)
  with d fresh have dist: "distinct (assigned_ids P (evs @ [CreateTask cfg]) (init_state w))"
    by simp
  from resp ids fresh dist show ?thesis unfolding cid ids by blast
qed

theorem create_task_fresh_identifier_witness:
  "fst (create_task (demo_task []) (after [CreateTask (demo_task [shot_step])])) =
     [(''task_id'', ''task_2''), (''status'', ''created'')]
   \<and> assigned_ids demo_provider [CreateTask (demo_task [shot_step])] (init_state 0)
       = [Some ''task_1'']
   \<and> created_id (fst (create_task (demo_task []) (after [CreateTask (demo_task [shot_step])])))
       \<notin> set (assigned_ids demo_provider [CreateTask (demo_task [shot_step])] (init_state 0))"
proof -
  have a: "fst (create_task (demo_task []) (after [CreateTask (demo_task [shot_step])])) =
           [(''task_id'', ''task_2''), (''status'', ''created'')]"
    by code_simp
  have b: "assigned_ids demo_provider [CreateTask (demo_task [shot_step])] (init_state 0)
           = [Some ''task_1'']"
    by code_simp
  from create_task_fresh_identifier
         [of "demo_task []" demo_provider "[CreateTask (demo_task [shot_step])]" 0]
  have c: "created_id (fst (create_task (demo_task []) (after [CreateTask (demo_task [shot_step])])))
       \<notin> set (assigned_ids demo_provider [CreateTask (demo_task [shot_step])] (init_state 0))"
    unfolding after_def by blast
  from a b c show ?thesis by blast
qed

section \<open>Starting runs, status and registration\<close>

lemma dict_get_append:
  "dict_get k (d @ d') = (case dict_get k d of None \<Rightarrow> dict_get k d' | Some v \<Rightarrow> Some v)"
  by (induction d) auto

lemma fresh_no_result:
  assumes ok: "registry_ok s"
  shows "dict_get (''task_'' @ str_nat (Suc (length (tasks s)))) (results s) = None"
proof -
  from fresh_id[OF ok]
  have "''task_'' @ str_nat (Suc (length (tasks s))) \<notin> set (dict_keys (tasks s))"
    by (rule dict_get_None_iff[THEN iffD1])
  with ok have "''task_'' @ str_nat (Suc (length (tasks s))) \<notin> set (dict_keys (results s))"
    unfolding registry_ok_def by blast
  then show ?thesis by (rule dict_get_None_iff[THEN iffD2])
qed

lemma status_running:
  assumes "dict_get tid (tasks s) \<noteq> None" and "dict_get tid (results s) = None"
  shows "get_task_status tid s =
         Inr \<lparr>task_id = tid, status = ''running'', progress = Some (1 / 2),
               message = Some ''Task is still running''\<rparr>"
  using assms by (simp add: get_task_status_def dict_has_def)

text \<open>
  Claim C3, as the code has it. \<^verbatim>\<open>execute_task\<close> fails with the 404 "not found" error when
  the identifier is unknown. For a stored task it never fails: it answers \<^verbatim>\<open>running\<close> with
  progress 0 and schedules one more run, whether or not a run of the task is still active;
  \<^verbatim>\<open>tasks\<close> and \<^verbatim>\<open>results\<close> are left as they are. The code has no "already running" error.
\<close>

theorem execute_task_always_starts:
  "(\<not> dict_has tid (tasks s) \<longrightarrow> execute_task tid s = Inl (not_found tid)) \<and>
   (dict_has tid (tasks s) \<longrightarrow>
      (\<exists>r s'. execute_task tid s = Inr (r, s') \<and> status r = ''running'' \<and> progress r = Some 0
         \<and> count_list (scheduled s') tid = Suc (count_list (scheduled s) tid)
         \<and> tasks s' = tasks s \<and> results s' = results s))"
  by (simp add: execute_task_def)

theorem execute_task_always_starts_witness:
  "\<not> dict_has ''task_9'' (tasks (after [CreateTask (demo_task []), ExecuteTask ''task_1'']))
   \<and> execute_task ''task_9'' (after [CreateTask (demo_task []), ExecuteTask ''task_1''])
       = Inl (not_found ''task_9'')
   \<and> dict_has ''task_1'' (tasks (after [CreateTask (demo_task []), ExecuteTask ''task_1'']))
   \<and> run_active ''task_1'' (after [CreateTask (demo_task []), ExecuteTask ''task_1''])
   \<and> (\<exists>r s'. execute_task ''task_1'' (after [CreateTask (demo_task []), ExecuteTask ''task_1''])
          = Inr (r, s') \<and> status r = ''running'' \<and> count_list (scheduled s') ''task_1'' = 2)"
proof -
  let ?s = "after [CreateTask (demo_task []), ExecuteTask ''task_1'']"
  have a: "\<not> dict_has ''task_9'' (tasks ?s)" by code_simp
  have b: "dict_has ''task_1'' (tasks ?s)" by code_simp
  have c: "run_active ''task_1'' ?s" by code_simp
  have d: "count_list (scheduled ?s) ''task_1'' = 1" by code_simp
  from execute_task_always_starts[of "''task_9''" ?s] a
  have e: "execute_task ''task_9'' ?s = Inl (not_found ''task_9'')" by blast
  from execute_task_always_starts[of "''task_1''" ?s] b d
  have f: "\<exists>r s'. execute_task ''task_1'' ?s = Inr (r, s') \<and> status r = ''running''
            \<and> count_list (scheduled s') ''task_1'' = 2"
    by auto
  from a b c e f show ?thesis by blast
qed

theorem execute_task_already_running_counterexample:
  "run_active ''task_1'' (after [CreateTask (demo_task []), ExecuteTask ''task_1''])
   \<and> execute_task ''task_1'' (after [CreateTask (demo_task []), ExecuteTask ''task_1''])
       = Inr (\<lparr>task_id = ''task_1'', status = ''running'', progress = Some 0,
                 message = Some ''Task execution started''\<rparr>,
              (after [CreateTask (demo_task []), ExecuteTask ''task_1''])
                \<lparr>scheduled := [''task_1'', ''task_1'']\<rparr>)"
  by code_simp

text \<open>
  Claim C4, as the code has it. After any history, registering a definition and asking
  for the status of the new identifier at once answers \<^verbatim>\<open>running\<close> with progress 0.5 and
  the message "Task is still running"; and in every state the status of a stored task
  without an entry in \<^verbatim>\<open>results\<close> is that same answer, whether or not a run was ever
  started. The code has no pending status.
\<close>

theorem status_after_register:
  "get_task_status (''task_'' @ str_nat (length (tasks (run_events P evs (init_state w))) + 1))
      (snd (create_task cfg (run_events P evs (init_state w)))) =
     Inr \<lparr>task_id = ''task_'' @ str_nat (length (tasks (run_events P evs (init_state w))) + 1),
           status = ''running'', progress = Some (1 / 2),
           message = Some ''Task is still running''\<rparr>
   \<and> (dict_has tid (tasks s) \<and> \<not> dict_has tid (results s) \<longrightarrow>
        get_task_status tid s =
          Inr \<lparr>task_id = tid, status = ''running'', progress = Some (1 / 2),
                message = Some ''Task is still running''\<rparr>)"
proof -
  let ?s = "run_events P evs (init_state w)"
  define tid' where "tid' = ''task_'' @ str_nat (Suc (length (tasks ?s)))"
  have ok: "registry_ok ?s" by (rule registry_ok_history)
  have s': "snd (create_task cfg ?s) = ?s\<lparr>tasks := dict_set tid' cfg (tasks ?s)\<rparr>"
    unfolding tid'_def by (simp add: create_task_def Let_def)
  have t: "dict_get tid' (tasks (snd (create_task cfg ?s))) \<noteq> None"
    unfolding s' by (simp add: dict_get_set)
  have r: "dict_get tid' (results (snd (create_task cfg ?s))) = None"
    unfolding s' using fresh_no_result[OF ok] by (simp add: tid'_def)
  have 1: "get_task_status tid' (snd (create_task cfg ?s)) =
     Inr \<lparr>task_id = tid', status = ''running'', progress = Some (1 / 2),
           message = Some ''Task is still running''\<rparr>"
    using t r by (rule status_running)
  have e: "''task_'' @ str_nat (length (tasks ?s) + 1) = tid'" by (simp add: tid'_def)
  have 2: "dict_has tid (tasks s) \<and> \<not> dict_has tid (results s) \<longrightarrow>
        get_task_status tid s =
          Inr \<lparr>task_id = tid, status = ''running'', progress = Some (1 / 2),
                message = Some ''Task is still running''\<rparr>"
    by (auto simp: dict_has_def intro: status_running)
  from 1 2 show ?thesis unfolding e by (rule conjI)
qed

theorem status_after_register_witness:
  "get_task_status ''task_1'' (snd (create_task (demo_task [shot_step]) (after []))) =
     Inr \<lparr>task_id = ''task_1'', status = ''running'', progress = Some (1 / 2),
           message = Some ''Task is still running''\<rparr>
   \<and> dict_has ''task_1'' (tasks (after [CreateTask (demo_task []), ExecuteTask ''task_1'']))
   \<and> \<not> dict_has ''task_1'' (results (after [CreateTask (demo_task []), ExecuteTask ''task_1'']))
   \<and> get_task_status ''task_1'' (after [CreateTask (demo_task []), ExecuteTask ''task_1'']) =
     Inr \<lparr>task_id = ''task_1'', status = ''running'', progress = Some (1 / 2),
           message = Some ''Task is still running''\<rparr>"
proof -
  let ?s = "after [CreateTask (demo_task []), ExecuteTask ''task_1'']"
  have n: "''task_'' @ str_nat (length (tasks (run_events demo_provider [] (init_state (0::nat)))) + 1)
           = ''task_1''"
    by code_simp
  have a: "dict_has ''task_1'' (tasks ?s)" by code_simp
  have b: "\<not> dict_has ''task_1'' (results ?s)" by code_simp
  note inst = status_after_register[of demo_provider "[]" 0 "demo_task [shot_step]" "''task_1''" ?s]
  from inst have c: "get_task_status ''task_1'' (snd (create_task (demo_task [shot_step]) (after []))) =
     Inr \<lparr>task_id = ''task_1'', status = ''running'', progress = Some (1 / 2),
           message = Some ''Task is still running''\<rparr>"
    unfolding n after_def by blast
  from inst a b have d: "get_task_status ''task_1'' ?s =
     Inr \<lparr>task_id = ''task_1'', status = ''running'', progress = Some (1 / 2),
           message = Some ''Task is still running''\<rparr>"
    by blast
  from a b c d show ?thesis by blast
qed

theorem status_after_register_counterexample:
  "get_task_status ''task_1'' (snd (create_task (demo_task [shot_step]) (init_state (0::nat)))) =
     Inr \<lparr>task_id = ''task_1'', status = ''running'', progress = Some (1 / 2),
           message = Some ''Task is still running''\<rparr>"
  by code_simp

text \<open>
  Claim C5, as the code has it. The identifier depends on the number of stored tasks only:
  two definitions registered in the same state get the same answer, whatever their names.
  Registering a second definition, also one with the same name, never fails: it gets an
  identifier different from the first, both definitions are then stored as registered,
  and a registration leaves every definition stored before it unchanged.
\<close>

theorem create_task_ignores_name:
  "fst (create_task cfg (run_events P evs (init_state w)))
     = fst (create_task cfg' (run_events P evs (init_state w)))
   \<and> created_id (fst (create_task cfg (run_events P evs (init_state w))))
       \<noteq> created_id (fst (create_task cfg'
             (snd (create_task cfg (run_events P evs (init_state w))))))
   \<and> get_task (''task_'' @ str_nat (length (tasks (run_events P evs (init_state w))) + 1))
        (snd (create_task cfg' (snd (create_task cfg (run_events P evs (init_state w))))))
       = Inr (''task_'' @ str_nat (length (tasks (run_events P evs (init_state w))) + 1), cfg)
   \<and> get_task (''task_'' @ str_nat (length (tasks (run_events P evs (init_state w))) + 2))
        (snd (create_task cfg' (snd (create_task cfg (run_events P evs (init_state w))))))
       = Inr (''task_'' @ str_nat (length (tasks (run_events P evs (init_state w))) + 2), cfg')
   \<and> (dict_has tid (tasks (run_events P evs (init_state w))) \<longrightarrow>
        get_task tid (snd (create_task cfg (run_events P evs (init_state w))))
          = get_task tid (run_events P evs (init_state w)))"
proof -
  let ?s = "run_events P evs (init_state w)"
  let ?n = "length (tasks ?s)"
  let ?s1 = "snd (create_task cfg ?s)"
  let ?s2 = "snd (create_task cfg' ?s1)"
  define id1 where "id1 = ''task_'' @ str_nat (Suc ?n)"
  define id2 where "id2 = ''task_'' @ str_nat (Suc (Suc ?n))"
  have ok: "registry_ok ?s" by (rule registry_ok_history)
  have ok1: "registry_ok ?s1" using ok by (rule registry_ok_create)
  have t1: "tasks ?s1 = tasks ?s @ [(id1, cfg)]"
    unfolding id1_def by (rule create_task_appends[OF ok])
  then have len1: "length (tasks ?s1) = Suc ?n" by simp
  have t2': "tasks ?s2 = tasks ?s1 @ [(id2, cfg')]"
    using create_task_appends[OF ok1, of cfg'] unfolding len1 id2_def[symmetric] .
  have t2: "tasks ?s2 = tasks ?s @ [(id1, cfg), (id2, cfg')]"
    unfolding t2' t1 by simp
  have f1: "dict_get id1 (tasks ?s) = None" unfolding id1_def by (rule fresh_id[OF ok])
  have "dict_get id2 (tasks ?s1) = None"
    using fresh_id[OF ok1] unfolding len1 id2_def[symmetric] .
  then have f2: "dict_get id2 (tasks ?s) = None" and ne: "id1 \<noteq> id2"
    unfolding t1 by (auto simp: dict_get_append split: option.splits if_splits)
  have a: "fst (create_task cfg ?s) = fst (create_task cfg' ?s)"
    by (simp add: create_task_def Let_def)
  have c1: "created_id (fst (create_task cfg ?s)) = Some id1"
    unfolding id1_def by (rule created_id_create)
  have c2: "created_id (fst (create_task cfg' ?s1)) = Some id2"
    using created_id_create[of cfg' ?s1] unfolding len1 id2_def[symmetric] .
  from ne have b: "created_id (fst (create_task cfg ?s)) \<noteq> created_id (fst (create_task cfg' ?s1))"
    unfolding c1 c2 by simp
  have g1: "get_task id1 ?s2 = Inr (id1, cfg)"
    unfolding get_task_def t2 using f1 by (simp add: dict_get_append)
  have g2: "get_task id2 ?s2 = Inr (id2, cfg')"
    unfolding get_task_def t2 using f2 ne by (simp add: dict_get_append)
  have e1: "''task_'' @ str_nat (?n + 1) = id1" by (simp add: id1_def)
  have e2: "''task_'' @ str_nat (?n + 2) = id2" by (simp add: id2_def)
  have h: "dict_has tid (tasks ?s) \<longrightarrow> get_task tid ?s1 = get_task tid ?s"
    unfolding get_task_def t1 by (auto simp: dict_has_def dict_get_append)
  from a b g1 g2 h show ?thesis unfolding e1 e2 by blast
qed

theorem create_task_ignores_name_witness:
  "dict_has ''task_1'' (tasks (after [CreateTask (demo_task [shot_step])]))
   \<and> get_task ''task_1''
       (snd (create_task (demo_task [shot_step]) (after [CreateTask (demo_task [shot_step])])))
     = Inr (''task_1'', demo_task [shot_step])
   \<and> created_id (fst (create_task (demo_task [shot_step])
                          (after [CreateTask (demo_task [shot_step])])))
     = Some ''task_2''"
proof -
  let ?s = "after [CreateTask (demo_task [shot_step])]"
  have a: "dict_has ''task_1'' (tasks ?s)" by code_simp
  have b: "get_task ''task_1'' ?s = Inr (''task_1'', demo_task [shot_step])" by code_simp
  have c: "created_id (fst (create_task (demo_task [shot_step]) ?s)) = Some ''task_2''"
    by code_simp
  from create_task_ignores_name
         [of "demo_task [shot_step]" demo_provider "[CreateTask (demo_task [shot_step])]" 0
             "demo_task [shot_step]" "''task_1''"] a
  have "get_task ''task_1'' (snd (create_task (demo_task [shot_step]) ?s)) = get_task ''task_1'' ?s"
    unfolding after_def by blast
  with a b c show ?thesis by simp
qed

theorem create_task_same_name_counterexample:
  "fst (create_task (demo_task []) (after [])) = [(''task_id'', ''task_1''), (''status'', ''created'')]
   \<and> fst (create_task (demo_task []) (after [CreateTask (demo_task [])]))
       = [(''task_id'', ''task_2''), (''status'', ''created'')]
   \<and> tasks (after [CreateTask (demo_task []), CreateTask (demo_task [])])
       = [(''task_1'', demo_task []), (''task_2'', demo_task [])]"
  by code_simp

section \<open>Progress along a history\<close>








section \<open>Status and result of a stored entry\<close>

lemma status_of_entry:
  assumes "dict_get tid (tasks s) \<noteq> None" and "dict_get tid (results s) = Some r"
  shows "get_task_status tid s =
     Inr \<lparr>task_id = tid, status = (if entry_error r = None then ''completed'' else ''failed''),
           progress = Some 1,
           message = (if entry_error r = None then Some ''Task execution completed''
                      else entry_error r)\<rparr>"
  using assms by (simp add: get_task_status_def dict_has_def Let_def)

lemma result_of_entry:
  assumes "dict_get tid (tasks s) \<noteq> None" and "dict_get tid (results s) = Some r"
  shows "get_task_result tid s =
     Inr \<lparr>task_id = tid, status = (if entry_error r = None then ''completed'' else ''failed''),
           result = entry_result r, error = entry_error r\<rparr>"
  using assms by (simp add: get_task_result_def dict_has_def)


section \<open>Extract steps without a match\<close>

lemma step_item_has: "dict_has k st \<Longrightarrow> step_item k st = Inr (step_get k st)"
  by (auto simp: dict_has_def step_item_def step_get_def)

lemma io_bind_of_Inr: "io_bind (io_of (Inr a)) f = f a"
  by (rule ext) (simp add: io_bind_def io_of_def)

lemma extract_none_exec:
  assumes "extract_matches_none P st w w'"
  shows "exec_step P st w = (Inr st, w')"
proof -
  from assms have ty: "dict_get ''type'' st = Some (VStr ''extract'')"
    by (simp add: extract_matches_none_def)
  show ?thesis
  proof (cases "dict_has ''selector'' st")
    case True
    with assms have q: "page_query_selector P (step_get ''selector'' st) w = (Inr None, w')"
      by (simp add: extract_matches_none_def)
    from True q show ?thesis unfolding exec_step_extract_eq[OF ty]
      by (simp add: step_item_has io_bind_of_Inr io_bind_def io_return_def)
  next
    case False
    with assms have x: "dict_has ''xpath'' st"
      and q: "page_xpath P (step_get ''xpath'' st) w = (Inr [], w')"
      by (simp_all add: extract_matches_none_def)
    from False x q show ?thesis unfolding exec_step_extract_eq[OF ty]
      by (simp add: step_item_has io_bind_of_Inr io_bind_def io_return_def)
  qed
qed

lemma run_steps_append:
  "run_steps P xs w = ((None, xs'), w1) \<Longrightarrow>
   run_steps P (xs @ ys) w =
     (case run_steps P ys w1 of ((r, ys'), w2) \<Rightarrow> ((r, xs' @ ys'), w2))"
proof (induction xs arbitrary: w xs')
  case Nil
  then show ?case by (simp split: prod.splits)
next
  case (Cons x xs)
  from Cons.prems obtain y wa xs'' where
    ex: "exec_step P x w = (Inr y, wa)" and
    rest: "run_steps P xs wa = ((None, xs''), w1)" and xs': "xs' = y # xs''"
    by (auto split: prod.splits sum.splits)
  from Cons.IH[OF rest] ex xs' show ?case by (simp split: prod.splits)
qed

text \<open>
  Claim C6, as the code has it. An \<^verbatim>\<open>extract\<close> step whose query matches no element does
  not raise: it writes nothing and leaves the step exactly as it was, so the step carries
  no Step Result unless it carried one before the run reached it. The loop goes on with
  the steps after it, and the outcome of the whole loop is the outcome of those steps, so
  the run completes when they and the teardown succeed.
\<close>

theorem extract_without_match_continues:
  assumes before: "run_steps P pre w0 = ((None, pre'), w)"
      and none: "extract_matches_none P st w w'"
  shows "exec_step P st w = (Inr st, w')
     \<and> run_steps P (pre @ st # rest) w0 =
         (case run_steps P rest w' of ((r, rest'), w'') \<Rightarrow> ((r, pre' @ st # rest'), w''))"
proof -
  note ex = extract_none_exec[OF none]
  have "run_steps P (st # rest) w =
        (case run_steps P rest w' of ((r, rest'), w'') \<Rightarrow> ((r, st # rest'), w''))"
    using ex by simp
  with run_steps_append[OF before, of "st # rest"] ex show ?thesis
    by (simp split: prod.splits)
qed

theorem extract_without_match_continues_witness:
  "run_steps demo_provider [shot_step] 5
     = ((None, [[(''type'', VStr ''screenshot''),
                 (''result'', VDict [(''screenshot'', VStr ''UE5H'')])]]), 6)
   \<and> extract_matches_none demo_provider extract_none_step 6 7
   \<and> exec_step demo_provider extract_none_step 6 = (Inr extract_none_step, 7)
   \<and> run_steps demo_provider ([shot_step] @ extract_none_step # [extract_step]) 5
     = ((None, [[(''type'', VStr ''screenshot''),
                 (''result'', VDict [(''screenshot'', VStr ''UE5H'')])],
                extract_none_step,
                [(''type'', VStr ''extract''), (''selector'', VStr ''h1''),
                 (''result'', VDict [(''text'', VStr ''hello'')])]]), 9)
   \<and> get_task_status ''task_1''
       (after [CreateTask (demo_task [shot_step, extract_none_step, extract_step]),
               ExecuteTask ''task_1'', RunEnds 0])
     = Inr \<lparr>task_id = ''task_1'', status = ''completed'', progress = Some 1,
             message = Some ''Task execution completed''\<rparr>"
proof -
  let ?shot = "[(''type'', VStr ''screenshot''),
                 (''result'', VDict [(''screenshot'', VStr ''UE5H'')])]"
  have h1: "run_steps demo_provider [shot_step] 5 = ((None, [?shot]), 6)" by code_simp
  have h2: "extract_matches_none demo_provider extract_none_step 6 7" by code_simp
  have r: "run_steps demo_provider [extract_step] 7
           = ((None, [[(''type'', VStr ''extract''), (''selector'', VStr ''h1''),
                 (''result'', VDict [(''text'', VStr ''hello'')])]]), 9)" by code_simp
  have st: "get_task_status ''task_1''
       (after [CreateTask (demo_task [shot_step, extract_none_step, extract_step]),
               ExecuteTask ''task_1'', RunEnds 0])
     = Inr \<lparr>task_id = ''task_1'', status = ''completed'', progress = Some 1,
             message = Some ''Task execution completed''\<rparr>" by code_simp
  from extract_without_match_continues[OF h1 h2, of "[extract_step]"] r
  have "exec_step demo_provider extract_none_step 6 = (Inr extract_none_step, 7)
     \<and> run_steps demo_provider ([shot_step] @ extract_none_step # [extract_step]) 5
       = ((None, [?shot, extract_none_step,
                [(''type'', VStr ''extract''), (''selector'', VStr ''h1''),
                 (''result'', VDict [(''text'', VStr ''hello'')])]]), 9)"
    by simp
  with h1 h2 st show ?thesis by blast
qed

theorem extract_stale_result_counterexample:
  "world (run_events changing_provider
           [CreateTask (demo_task [extract_step]), ExecuteTask ''task_1'', RunEnds 0,
            ExecuteTask ''task_1''] (init_state 0)) = 9
   \<and> session_setup changing_provider (demo_task [extract_step]) 10 = (Inr (), 14)
   \<and> extract_matches_none changing_provider
       [(''type'', VStr ''extract''), (''selector'', VStr ''h1''),
        (''result'', VDict [(''text'', VStr ''hello'')])] 14 15
   \<and> get_task_result ''task_1''
        (run_events changing_provider
           [CreateTask (demo_task [extract_step]), ExecuteTask ''task_1'', RunEnds 0,
            ExecuteTask ''task_1'', RunEnds 0] (init_state 0))
       = Inr \<lparr>task_id = ''task_1'', status = ''completed'',
               result = Some [[(''type'', VStr ''extract''), (''selector'', VStr ''h1''),
                               (''result'', VDict [(''text'', VStr ''hello'')])]],
               error = None\<rparr>"
  by code_simp

section \<open>What a run changes\<close>

lemma without_results_steps:
  "map (dict_without ''result'') sts = map (dict_without ''result'') (steps task) \<Longrightarrow>
   without_results (task\<lparr>steps := sts\<rparr>) = without_results task"
  by (simp add: without_results_def)

text \<open>
  Claim C7, as the code has it. A run of a stored task always returns, and afterwards
  \<^verbatim>\<open>get_task\<close> returns the registered definition up to the key \<^verbatim>\<open>result\<close> of its steps:
  name, description, target URL, schedule, the number and order of the steps and every
  other key of every step are unchanged, each step is as it was or is a screenshot or
  extract step with its result written; the other tasks are untouched, and
  \<^verbatim>\<open>execute_task\<close> itself does not change \<^verbatim>\<open>tasks\<close>.
\<close>

theorem run_keeps_definition_but_results:
  assumes reg: "dict_get tid (tasks s) = Some task"
  shows "\<exists>s' task'. run_automation P tid s = Inr s'
     \<and> get_task tid s' = Inr (tid, task')
     \<and> without_results task' = without_results task
     \<and> list_all2 (\<lambda>x y. y = x \<or> step_after x y) (steps task) (steps task')
     \<and> (t \<noteq> tid \<longrightarrow> get_task t s' = get_task t s)
     \<and> (execute_task tid s = Inr (r, s1) \<longrightarrow> tasks s1 = tasks s)"
proof -
  from run_automation_shape[OF reg, of P] obtain sts entry w' where
    fr: "list_all2 (\<lambda>x y. y = x \<or> step_after x y) (steps task) sts" and
    run: "run_automation P tid s =
        Inr (s\<lparr>tasks := dict_set tid (task\<lparr>steps := sts\<rparr>) (tasks s),
                 results := dict_set tid entry (results s), world := w'\<rparr>)"
    by blast
  let ?s' = "s\<lparr>tasks := dict_set tid (task\<lparr>steps := sts\<rparr>) (tasks s),
                 results := dict_set tid entry (results s), world := w'\<rparr>"
  have g: "get_task tid ?s' = Inr (tid, task\<lparr>steps := sts\<rparr>)"
    by (simp add: get_task_def dict_get_set)
  have wr: "without_results (task\<lparr>steps := sts\<rparr>) = without_results task"
    using frame_without[OF fr] by (rule without_results_steps)
  have fr': "list_all2 (\<lambda>x y. y = x \<or> step_after x y) (steps task) (steps (task\<lparr>steps := sts\<rparr>))"
    using fr by simp
  have other: "t \<noteq> tid \<longrightarrow> get_task t ?s' = get_task t s"
    by (simp add: get_task_def dict_get_set)
  have ex: "execute_task tid s = Inr (r, s1) \<longrightarrow> tasks s1 = tasks s"
    by (auto simp: execute_task_def split: if_splits)
  from run g wr fr' other ex show ?thesis by blast
qed

theorem run_keeps_definition_but_results_witness:
  "dict_get ''task_1'' (tasks (after [CreateTask (demo_task [shot_step, click_missing_step])]))
     = Some (demo_task [shot_step, click_missing_step])
   \<and> (\<exists>s' task'. run_automation demo_provider ''task_1''
          (after [CreateTask (demo_task [shot_step, click_missing_step])]) = Inr s'
        \<and> get_task ''task_1'' s' = Inr (''task_1'', task')
        \<and> without_results task' = without_results (demo_task [shot_step, click_missing_step]))"
proof -
  let ?T = "demo_task [shot_step, click_missing_step]"
  have h: "dict_get ''task_1'' (tasks (after [CreateTask ?T])) = Some ?T" by code_simp
  from run_keeps_definition_but_results[OF h, of demo_provider]
  have "\<exists>s' task'. run_automation demo_provider ''task_1'' (after [CreateTask ?T]) = Inr s'
        \<and> get_task ''task_1'' s' = Inr (''task_1'', task')
        \<and> without_results task' = without_results ?T"
    by blast
  with h show ?thesis by blast
qed

theorem run_changes_definition_counterexample:
  "get_task ''task_1'' (after [CreateTask (demo_task [shot_step])])
     = Inr (''task_1'', demo_task [[(''type'', VStr ''screenshot'')]])
   \<and> get_task ''task_1''
       (after [CreateTask (demo_task [shot_step]), ExecuteTask ''task_1'', RunEnds 0])
     = Inr (''task_1'', demo_task [[(''type'', VStr ''screenshot''),
                                     (''result'', VDict [(''screenshot'', VStr ''UE5H'')])]])"
  by code_simp

section \<open>The Step Results of a run\<close>




section \<open>A run among other runs\<close>




















section \<open>Runs that succeed and runs that fail\<close>







section \<open>Exceptions of a run\<close>

lemma run_try_enter_raises:
  "async_playwright P (world s) = (Inl e, w0) \<Longrightarrow> fst (run_try P tid task s) = Some e"
  by (simp add: run_try_def)

lemma run_try_prep_raises:
  assumes "async_playwright P (world s) = (Inr (), w0)"
    and "session_setup P task w0 = (Inl e, w1)"
  shows "fst (run_try P tid task s) = Some (leaving_exn P e w1)"
  using assms
  by (simp add: run_try_def with_body_def leaving_exn_def split: prod.splits sum.splits)

lemma run_try_step_raises:
  assumes "async_playwright P (world s) = (Inr (), w0)"
    and "session_setup P task w0 = (Inr (), w1)"
    and "run_steps P (steps task) w1 = ((Some e, sts), w2)"
  shows "fst (run_try P tid task s) = Some (leaving_exn P e w2)"
  using assms
  by (simp add: run_try_def with_body_def leaving_exn_def split: prod.splits sum.splits)

lemma run_try_close_raises:
  assumes "async_playwright P (world s) = (Inr (), w0)"
    and "session_setup P task w0 = (Inr (), w1)"
    and "run_steps P (steps task) w1 = ((None, sts), w2)"
    and "browser_close P w2 = (Inl e, w3)"
  shows "fst (run_try P tid task s) = Some (leaving_exn P e w3)"
  using assms
  by (simp add: run_try_def with_body_def leaving_exn_def split: prod.splits sum.splits)

lemma run_try_stop_raises:
  assumes "async_playwright P (world s) = (Inr (), w0)"
    and "session_setup P task w0 = (Inr (), w1)"
    and "run_steps P (steps task) w1 = ((None, sts), w2)"
    and "browser_close P w2 = (Inr (), w3)"
    and "playwright_stop P w3 = (Inl e, w4)"
  shows "fst (run_try P tid task s) = Some e"
  using assms by (simp add: run_try_def with_body_def)

lemma raised_is_stored:
  assumes reg: "dict_get tid (tasks s) = Some task"
    and run: "run_automation P tid s = Inr s'"
    and ex: "fst (run_try P tid task s) = Some e"
  shows "failed_with tid (str_exn e) s'"
proof -
  from run_automation_shape[OF reg, of P] run ex obtain sts w' where
    s': "s' = s\<lparr>tasks := dict_set tid (task\<lparr>steps := sts\<rparr>) (tasks s),
                 results := dict_set tid (Error (str_exn e)) (results s), world := w'\<rparr>"
    by auto
  have t: "dict_get tid (tasks s') \<noteq> None" unfolding s' by (simp add: dict_get_set)
  have r: "dict_get tid (results s') = Some (Error (str_exn e))"
    unfolding s' by (simp add: dict_get_set)
  from status_of_entry[OF t r] result_of_entry[OF t r] show ?thesis
    by (simp add: failed_with_def)
qed

text \<open>
  Claim C8, as the code has it. For a stored task \<^verbatim>\<open>run_automation\<close> always returns a state
  and never an exception. Whenever entering Playwright, the session set-up with the first
  navigation, a step, closing the browser or stopping Playwright raises, status and result
  of the task report \<^verbatim>\<open>failed\<close> afterwards, with the string of the exception that reaches
  the \<^verbatim>\<open>except\<close> clause: the exception raised, unless stopping Playwright raises after
  it, and then the exception of the stop. What \<^verbatim>\<open>execute_task\<close> answers does not depend
  on the run.
\<close>

theorem run_failure_is_stored:
  assumes reg: "dict_get tid (tasks s) = Some task"
  shows "\<exists>s'. run_automation P tid s = Inr s'
     \<and> (async_playwright P (world s) = (Inl e, w0) \<longrightarrow> failed_with tid (str_exn e) s')
     \<and> (async_playwright P (world s) = (Inr (), w0) \<and> session_setup P task w0 = (Inl e, w1)
          \<longrightarrow> failed_with tid (str_exn (leaving_exn P e w1)) s')
     \<and> (async_playwright P (world s) = (Inr (), w0) \<and> session_setup P task w0 = (Inr (), w1)
          \<and> run_steps P (steps task) w1 = ((Some e, sts), w2)
          \<longrightarrow> failed_with tid (str_exn (leaving_exn P e w2)) s')
     \<and> (async_playwright P (world s) = (Inr (), w0) \<and> session_setup P task w0 = (Inr (), w1)
          \<and> run_steps P (steps task) w1 = ((None, sts), w2)
          \<and> browser_close P w2 = (Inl e, w3)
          \<longrightarrow> failed_with tid (str_exn (leaving_exn P e w3)) s')
     \<and> (async_playwright P (world s) = (Inr (), w0) \<and> session_setup P task w0 = (Inr (), w1)
          \<and> run_steps P (steps task) w1 = ((None, sts), w2)
          \<and> browser_close P w2 = (Inr (), w3) \<and> playwright_stop P w3 = (Inl e, w4)
          \<longrightarrow> failed_with tid (str_exn e) s')
     \<and> (playwright_stop P w = (Inr (), w') \<longrightarrow> leaving_exn P e w = e)
     \<and> (playwright_stop P w = (Inl e', w') \<longrightarrow> leaving_exn P e w = e')
     \<and> execute_task tid s =
          Inr (\<lparr>task_id = tid, status = ''running'', progress = Some 0,
                 message = Some ''Task execution started''\<rparr>,
               s\<lparr>scheduled := scheduled s @ [tid]\<rparr>)"
proof -
  from run_automation_shape[OF reg, of P] obtain s' where
    run: "run_automation P tid s = Inr s'" by blast
  note st = raised_is_stored[OF reg run]
  have a: "async_playwright P (world s) = (Inl e, w0) \<longrightarrow> failed_with tid (str_exn e) s'"
    using st[OF run_try_enter_raises] by blast
  have b: "async_playwright P (world s) = (Inr (), w0) \<and> session_setup P task w0 = (Inl e, w1)
          \<longrightarrow> failed_with tid (str_exn (leaving_exn P e w1)) s'"
    using st[OF run_try_prep_raises] by blast
  have c: "async_playwright P (world s) = (Inr (), w0) \<and> session_setup P task w0 = (Inr (), w1)
          \<and> run_steps P (steps task) w1 = ((Some e, sts), w2)
          \<longrightarrow> failed_with tid (str_exn (leaving_exn P e w2)) s'"
    using st[OF run_try_step_raises] by blast
  have d: "async_playwright P (world s) = (Inr (), w0) \<and> session_setup P task w0 = (Inr (), w1)
          \<and> run_steps P (steps task) w1 = ((None, sts), w2)
          \<and> browser_close P w2 = (Inl e, w3)
          \<longrightarrow> failed_with tid (str_exn (leaving_exn P e w3)) s'"
    using st[OF run_try_close_raises] by blast
  have f: "async_playwright P (world s) = (Inr (), w0) \<and> session_setup P task w0 = (Inr (), w1)
          \<and> run_steps P (steps task) w1 = ((None, sts), w2)
          \<and> browser_close P w2 = (Inr (), w3) \<and> playwright_stop P w3 = (Inl e, w4)
          \<longrightarrow> failed_with tid (str_exn e) s'"
    using st[OF run_try_stop_raises] by blast
  have g: "playwright_stop P w = (Inr (), w') \<longrightarrow> leaving_exn P e w = e"
    by (simp add: leaving_exn_def)
  have h: "playwright_stop P w = (Inl e', w') \<longrightarrow> leaving_exn P e w = e'"
    by (simp add: leaving_exn_def)
  from reg have i: "execute_task tid s =
          Inr (\<lparr>task_id = tid, status = ''running'', progress = Some 0,
                 message = Some ''Task execution started''\<rparr>,
               s\<lparr>scheduled := scheduled s @ [tid]\<rparr>)"
    by (simp add: execute_task_def dict_has_def)
  show ?thesis
    by (rule exI[of _ s']) (intro conjI run a b c d f g h i)
qed

theorem run_failure_is_stored_witness:
  "dict_get ''task_1'' (tasks (after [CreateTask (demo_task [click_missing_step])]))
     = Some (demo_task [click_missing_step])
   \<and> run_steps demo_provider (steps (demo_task [click_missing_step])) 5
       = ((Some (ProviderError ''Timeout 30000ms exceeded.''), [click_missing_step]), 6)
   \<and> playwright_stop demo_provider 6 = (Inr (), 7)
   \<and> (\<exists>s'. run_automation demo_provider ''task_1''
              (after [CreateTask (demo_task [click_missing_step])]) = Inr s'
         \<and> failed_with ''task_1'' ''Timeout 30000ms exceeded.'' s')
   \<and> playwright_stop stop_fails_provider 6 = (Inl (ProviderError ''Driver closed''), 7)
   \<and> (\<exists>s'. run_automation stop_fails_provider ''task_1''
              (after [CreateTask (demo_task [click_missing_step])]) = Inr s'
         \<and> failed_with ''task_1'' ''Driver closed'' s')
   \<and> async_playwright no_driver_provider 0 = (Inl (ProviderError ''Connection closed''), 1)
   \<and> (\<exists>s'. run_automation no_driver_provider ''task_1''
              (after [CreateTask (demo_task [click_missing_step])]) = Inr s'
         \<and> failed_with ''task_1'' ''Connection closed'' s')
   \<and> session_setup no_browser_provider (demo_task [click_missing_step]) 1
       = (Inl (ProviderError ''Executable does not exist''), 2)
   \<and> (\<exists>s'. run_automation no_browser_provider ''task_1''
              (after [CreateTask (demo_task [click_missing_step])]) = Inr s'
         \<and> failed_with ''task_1'' ''Executable does not exist'' s')
   \<and> dict_get ''task_1'' (tasks (after [CreateTask (demo_task [navigate_nowhere_step])]))
     = Some (demo_task [navigate_nowhere_step])
   \<and> run_steps demo_provider (steps (demo_task [navigate_nowhere_step])) 5
       = ((Some (KeyError ''url''), [navigate_nowhere_step]), 5)
   \<and> (\<exists>s'. run_automation demo_provider ''task_1''
              (after [CreateTask (demo_task [navigate_nowhere_step])]) = Inr s'
         \<and> failed_with ''task_1'' [CHR 0x27, CHR ''u'', CHR ''r'', CHR ''l'', CHR 0x27] s')
   \<and> dict_get ''task_1'' (tasks (after [CreateTask (demo_task [])])) = Some (demo_task [])
   \<and> browser_close close_fails_provider 5 = (Inl (ProviderError ''Target closed''), 6)
   \<and> (\<exists>s'. run_automation close_fails_provider ''task_1''
              (after [CreateTask (demo_task [])]) = Inr s'
         \<and> failed_with ''task_1'' ''Target closed'' s')
   \<and> (\<exists>s'. run_automation stop_fails_provider ''task_1''
              (after [CreateTask (demo_task [])]) = Inr s'
         \<and> failed_with ''task_1'' ''Driver closed'' s')"
proof -
  let ?T = "demo_task [click_missing_step]"
  let ?S = "after [CreateTask ?T]"
  let ?e = "ProviderError ''Timeout 30000ms exceeded.''"
  let ?N = "demo_task [navigate_nowhere_step]"
  let ?U = "demo_task []"
  have reg: "dict_get ''task_1'' (tasks ?S) = Some ?T" by code_simp
  have regN: "dict_get ''task_1'' (tasks (after [CreateTask ?N])) = Some ?N" by code_simp
  have regU: "dict_get ''task_1'' (tasks (after [CreateTask ?U])) = Some ?U" by code_simp
  have a1: "async_playwright demo_provider (world ?S) = (Inr (), 1)" by code_simp
  have a2: "session_setup demo_provider ?T 1 = (Inr (), 5)" by code_simp
  have a3: "run_steps demo_provider (steps ?T) 5 = ((Some ?e, [click_missing_step]), 6)"
    by code_simp
  have a4: "playwright_stop demo_provider 6 = (Inr (), 7)" by code_simp
  have a5: "str_exn (leaving_exn demo_provider ?e 6) = ''Timeout 30000ms exceeded.''"
    by code_simp
  from run_failure_is_stored[OF reg, where P = demo_provider and e = ?e and ?w0.0 = 1
      and ?w1.0 = 5 and sts = "[click_missing_step]" and ?w2.0 = 6] a1 a2 a3
  have r1: "\<exists>s'. run_automation demo_provider ''task_1'' ?S = Inr s'
         \<and> failed_with ''task_1'' ''Timeout 30000ms exceeded.'' s'"
    unfolding a5 by blast
  have b1: "async_playwright stop_fails_provider (world ?S) = (Inr (), 1)" by code_simp
  have b2: "session_setup stop_fails_provider ?T 1 = (Inr (), 5)" by code_simp
  have b3: "run_steps stop_fails_provider (steps ?T) 5 = ((Some ?e, [click_missing_step]), 6)"
    by code_simp
  have b4: "playwright_stop stop_fails_provider 6 = (Inl (ProviderError ''Driver closed''), 7)"
    by code_simp
  have b5: "str_exn (leaving_exn stop_fails_provider ?e 6) = ''Driver closed''" by code_simp
  from run_failure_is_stored[OF reg, where P = stop_fails_provider and e = ?e and ?w0.0 = 1
      and ?w1.0 = 5 and sts = "[click_missing_step]" and ?w2.0 = 6] b1 b2 b3
  have r2: "\<exists>s'. run_automation stop_fails_provider ''task_1'' ?S = Inr s'
         \<and> failed_with ''task_1'' ''Driver closed'' s'"
    unfolding b5 by blast
  have c1: "async_playwright no_driver_provider (world ?S)
            = (Inl (ProviderError ''Connection closed''), 1)" by code_simp
  have c1': "async_playwright no_driver_provider 0
            = (Inl (ProviderError ''Connection closed''), 1)" by code_simp
  have c2: "str_exn (ProviderError ''Connection closed'') = ''Connection closed''" by simp
  from run_failure_is_stored[OF reg, where P = no_driver_provider
      and e = "ProviderError ''Connection closed''" and ?w0.0 = 1] c1
  have r3: "\<exists>s'. run_automation no_driver_provider ''task_1'' ?S = Inr s'
         \<and> failed_with ''task_1'' ''Connection closed'' s'"
    unfolding c2 by blast
  have d1: "async_playwright no_browser_provider (world ?S) = (Inr (), 1)" by code_simp
  have d2: "session_setup no_browser_provider ?T 1
            = (Inl (ProviderError ''Executable does not exist''), 2)" by code_simp
  have d3: "str_exn (leaving_exn no_browser_provider
              (ProviderError ''Executable does not exist'') 2)
            = ''Executable does not exist''" by code_simp
  from run_failure_is_stored[OF reg, where P = no_browser_provider
      and e = "ProviderError ''Executable does not exist''" and ?w0.0 = 1 and ?w1.0 = 2] d1 d2
  have r4: "\<exists>s'. run_automation no_browser_provider ''task_1'' ?S = Inr s'
         \<and> failed_with ''task_1'' ''Executable does not exist'' s'"
    unfolding d3 by blast
  have n1: "async_playwright demo_provider (world (after [CreateTask ?N])) = (Inr (), 1)"
    by code_simp
  have n2: "session_setup demo_provider ?N 1 = (Inr (), 5)" by code_simp
  have n3: "run_steps demo_provider (steps ?N) 5
            = ((Some (KeyError ''url''), [navigate_nowhere_step]), 5)" by code_simp
  have n4: "str_exn (leaving_exn demo_provider (KeyError ''url'') 5)
            = [CHR 0x27, CHR ''u'', CHR ''r'', CHR ''l'', CHR 0x27]" by code_simp
  from run_failure_is_stored[OF regN, where P = demo_provider and e = "KeyError ''url''"
      and ?w0.0 = 1 and ?w1.0 = 5 and sts = "[navigate_nowhere_step]" and ?w2.0 = 5] n1 n2 n3
  have r5: "\<exists>s'. run_automation demo_provider ''task_1'' (after [CreateTask ?N]) = Inr s'
         \<and> failed_with ''task_1'' [CHR 0x27, CHR ''u'', CHR ''r'', CHR ''l'', CHR 0x27] s'"
    unfolding n4 by blast
  have e1: "async_playwright close_fails_provider (world (after [CreateTask ?U])) = (Inr (), 1)"
    by code_simp
  have e2: "session_setup close_fails_provider ?U 1 = (Inr (), 5)" by code_simp
  have e3: "run_steps close_fails_provider (steps ?U) 5 = ((None, []), 5)" by code_simp
  have e4: "browser_close close_fails_provider 5 = (Inl (ProviderError ''Target closed''), 6)"
    by code_simp
  have e5: "str_exn (leaving_exn close_fails_provider (ProviderError ''Target closed'') 6)
            = ''Target closed''" by code_simp
  from run_failure_is_stored[OF regU, where P = close_fails_provider
      and e = "ProviderError ''Target closed''" and ?w0.0 = 1 and ?w1.0 = 5 and sts = "[]"
      and ?w2.0 = 5 and ?w3.0 = 6] e1 e2 e3 e4
  have r6: "\<exists>s'. run_automation close_fails_provider ''task_1'' (after [CreateTask ?U]) = Inr s'
         \<and> failed_with ''task_1'' ''Target closed'' s'"
    unfolding e5 by blast
  have f1: "async_playwright stop_fails_provider (world (after [CreateTask ?U])) = (Inr (), 1)"
    by code_simp
  have f2: "session_setup stop_fails_provider ?U 1 = (Inr (), 5)" by code_simp
  have f3: "run_steps stop_fails_provider (steps ?U) 5 = ((None, []), 5)" by code_simp
  have f4: "browser_close stop_fails_provider 5 = (Inr (), 6)" by code_simp
  have f5: "str_exn (ProviderError ''Driver closed'') = ''Driver closed''" by simp
  from run_failure_is_stored[OF regU, where P = stop_fails_provider
      and e = "ProviderError ''Driver closed''" and ?w0.0 = 1 and ?w1.0 = 5 and sts = "[]"
      and ?w2.0 = 5 and ?w3.0 = 6 and ?w4.0 = 7] f1 f2 f3 f4 b4
  have r7: "\<exists>s'. run_automation stop_fails_provider ''task_1'' (after [CreateTask ?U]) = Inr s'
         \<and> failed_with ''task_1'' ''Driver closed'' s'"
    unfolding f5 by blast
  show ?thesis
    by (intro conjI reg a3 a4 r1 b4 r2 c1' r3 d2 r4 regN n3 r5 regU e4 r6 r7)
qed

theorem run_failure_is_stored_counterexample:
  "async_playwright stop_fails_provider 0 = (Inr (), 1)
   \<and> session_setup stop_fails_provider (demo_task [click_missing_step]) 1 = (Inr (), 5)
   \<and> run_steps stop_fails_provider (steps (demo_task [click_missing_step])) 5
       = ((Some (ProviderError ''Timeout 30000ms exceeded.''), [click_missing_step]), 6)
   \<and> playwright_stop stop_fails_provider 6 = (Inl (ProviderError ''Driver closed''), 7)
   \<and> run_automation stop_fails_provider ''task_1''
        (run_events stop_fails_provider [CreateTask (demo_task [click_missing_step])]
           (init_state 0))
       = Inr \<lparr>tasks = [(''task_1'', demo_task [click_missing_step])],
               results = [(''task_1'', Error ''Driver closed'')],
               scheduled = [], world = 7\<rparr>
   \<and> get_task_status ''task_1''
        (run_events stop_fails_provider
           [CreateTask (demo_task [click_missing_step]), ExecuteTask ''task_1'', RunEnds 0]
           (init_state 0))
       = Inr \<lparr>task_id = ''task_1'', status = ''failed'', progress = Some 1,
               message = Some ''Driver closed''\<rparr>"
  by code_simp

end
